theory Spec2Isabelle
  imports Complex_Main
begin

section \<open>JavaScript strings and numbers\<close>

text \<open>
  The client is TypeScript. Strings are character lists; the few string methods the client
  calls are written out. \<open>replaceFirst\<close> is \<^verbatim>\<open>String.prototype.replace\<close> with a
  one-character string pattern, which replaces the first occurrence only.
\<close>

definition startsWith :: "string \<Rightarrow> string \<Rightarrow> bool" where
  "startsWith s p = (take (length p) s = p)"

definition endsWith :: "string \<Rightarrow> string \<Rightarrow> bool" where
  "endsWith s p = (length p \<le> length s \<and> drop (length s - length p) s = p)"

fun includes_str :: "string \<Rightarrow> string \<Rightarrow> bool" where
  "includes_str [] p = (p = [])"
| "includes_str (c # s) p = (startsWith (c # s) p \<or> includes_str s p)"


definition digitChar :: "nat \<Rightarrow> char" where
  "digitChar d = ''0123456789'' ! d"

function showNat :: "nat \<Rightarrow> string" where
  "showNat n = (if n < 10 then [digitChar n] else showNat (n div 10) @ [digitChar (n mod 10)])"
  by pat_completeness auto
termination
  by (relation "measure id") auto

declare showNat.simps [simp del]

definition padStart :: "nat \<Rightarrow> string \<Rightarrow> string" where
  "padStart w s = replicate (w - length s) (CHR ''0'') @ s"

definition digitVal :: "char \<Rightarrow> int option" where
  "digitVal c = (let n = (of_char c :: nat) in if 48 \<le> n \<and> n \<le> 57 then Some (int n - 48) else None)"

fun digitsVal :: "int \<Rightarrow> string \<Rightarrow> int option" where
  "digitsVal acc [] = Some acc"
| "digitsVal acc (c # cs) = (case digitVal c of None \<Rightarrow> None | Some d \<Rightarrow> digitsVal (10 * acc + d) cs)"

section \<open>Dates\<close>

text \<open>
  \<^verbatim>\<open>Date\<close> is a built-in; it is modelled after the ECMAScript definitions: a time value is
  an integer number of milliseconds since the epoch, \<open>dayFromYear\<close>, \<open>makeDay\<close> and
  \<open>makeTime\<close> are the specification's functions of the same names, and a date-time string
  without a zone designator denotes local time. The local-time adjustment of the host
  is the parameter \<open>tza\<close>, a function of the local time value (it changes with
  daylight saving). Numbers are integers throughout: every time value is one.
\<close>

record civil =
  year :: int
  month :: int
  day :: int
  hour :: int
  minute :: int
  second :: int

definition leapYear :: "int \<Rightarrow> bool" where
  "leapYear y = ((y mod 4 = 0 \<and> y mod 100 \<noteq> 0) \<or> y mod 400 = 0)"

definition dayFromYear :: "int \<Rightarrow> int" where
  "dayFromYear y = 365 * (y - 1970) + (y - 1969) div 4 - (y - 1901) div 100 + (y - 1601) div 400"

definition daysInMonth :: "int \<Rightarrow> int \<Rightarrow> int" where
  "daysInMonth y m =
     (if m = 2 then (if leapYear y then 29 else 28)
      else if m = 4 \<or> m = 6 \<or> m = 9 \<or> m = 11 then 30 else 31)"

definition monthStart :: "int \<Rightarrow> int \<Rightarrow> int" where
  "monthStart y m =
     (let l = (if leapYear y then 1 else 0) in
      if m = 1 then 0 else if m = 2 then 31 else if m = 3 then 59 + l
      else if m = 4 then 90 + l else if m = 5 then 120 + l else if m = 6 then 151 + l
      else if m = 7 then 181 + l else if m = 8 then 212 + l else if m = 9 then 243 + l
      else if m = 10 then 273 + l else if m = 11 then 304 + l else 334 + l)"

definition makeDay :: "int \<Rightarrow> int \<Rightarrow> int \<Rightarrow> int" where
  "makeDay y m d = dayFromYear y + monthStart y m + d - 1"

definition makeTime :: "int \<Rightarrow> int \<Rightarrow> int \<Rightarrow> int \<Rightarrow> int" where
  "makeTime h mi s ms = h * 3600000 + mi * 60000 + s * 1000 + ms"

definition localMs :: "civil \<Rightarrow> int" where
  "localMs c = makeDay (year c) (month c) (day c) * 86400000
                 + makeTime (hour c) (minute c) (second c) 0"



text \<open>
  A date and a time of day of fixed widths, \<^verbatim>\<open>YYYY-MM-DD\<close>, a separator character and
  \<^verbatim>\<open>HH:MM:SS\<close>: the six numbers, whatever they are. With a space as separator this is
  the format of the server's timestamps, and the numbers of a timestamp are those of a
  date and a time of day that exist; with \<^verbatim>\<open>T\<close> it is the ECMAScript date-time format.
\<close>

definition dateTimeFields :: "char \<Rightarrow> string \<Rightarrow> civil option" where
  "dateTimeFields sep s =
     (if length s = 19 \<and> s ! 4 = CHR ''-'' \<and> s ! 7 = CHR ''-'' \<and> s ! 10 = sep
         \<and> s ! 13 = CHR '':'' \<and> s ! 16 = CHR '':''
      then (case (digitsVal 0 (take 4 s), digitsVal 0 (take 2 (drop 5 s)),
                  digitsVal 0 (take 2 (drop 8 s)), digitsVal 0 (take 2 (drop 11 s)),
                  digitsVal 0 (take 2 (drop 14 s)), digitsVal 0 (take 2 (drop 17 s))) of
              (Some y, Some mo, Some d, Some h, Some mi, Some se) \<Rightarrow>
                Some \<lparr>year = y, month = mo, day = d, hour = h, minute = mi, second = se\<rparr>
            | _ \<Rightarrow> None)
      else None)"


text \<open>
  What follows the seconds in a date-time string: nothing, a fraction of three digits,
  and an optional \<^verbatim>\<open>Z\<close>. The result is the milliseconds and whether the string is in UTC.
\<close>

definition zoneSuffix :: "string \<Rightarrow> (int \<times> bool) option" where
  "zoneSuffix r =
     (if r = [] then Some (0, False)
      else if r = ''Z'' then Some (0, True)
      else if length r = 4 \<and> hd r = CHR ''.'' then map_option (\<lambda>ms. (ms, False)) (digitsVal 0 (tl r))
      else if length r = 5 \<and> hd r = CHR ''.'' \<and> r ! 4 = CHR ''Z''
        then map_option (\<lambda>ms. (ms, True)) (digitsVal 0 (take 3 (tl r)))
      else None)"

text \<open>
  The numbers that the engine's parser accepts: a month from 1 to 12, a day from 1 to 31
  whatever the month, and a time of day up to 23:59:59 or else 24:00:00 sharp. A day beyond
  the end of its month and the hour 24 carry over into the next month and day in
  \<open>makeDay\<close> and \<open>makeTime\<close>.
\<close>

definition engineAccepts :: "civil \<Rightarrow> int \<Rightarrow> bool" where
  "engineAccepts c ms =
     (1 \<le> month c \<and> month c \<le> 12 \<and> 1 \<le> day c \<and> day c \<le> 31
      \<and> ((hour c \<le> 23 \<and> minute c \<le> 59 \<and> second c \<le> 59)
         \<or> (hour c = 24 \<and> minute c = 0 \<and> second c = 0 \<and> ms = 0)))"

text \<open>
  \<^verbatim>\<open>new Date(s).getTime()\<close> for a string in the date-time format; \<open>None\<close> is \<^verbatim>\<open>NaN\<close>
  (an invalid date). Strings in other formats, which an engine may accept through its
  legacy parser, are not timestamps of the server and are invalid here.
\<close>

definition dateParse :: "(int \<Rightarrow> int) \<Rightarrow> string \<Rightarrow> int option" where
  "dateParse tza s =
     (case dateTimeFields (CHR ''T'') (take 19 s) of
        None \<Rightarrow> None
      | Some c \<Rightarrow>
          (case zoneSuffix (drop 19 s) of
             None \<Rightarrow> None
           | Some (ms, utc) \<Rightarrow>
               if engineAccepts c ms
               then (let t = localMs c + ms in Some (if utc then t else t - tza t))
               else None))"





section \<open>Values, errors and the outside world\<close>

text \<open>
  JSON values, for the parameters the client sends. A reply is typed: its \<^verbatim>\<open>result\<close> is
  absent, \<^verbatim>\<open>null\<close>, \<^verbatim>\<open>false\<close>, or a value of the type the call site declares
  (\<^verbatim>\<open>request<T>\<close>). The declaration checks nothing at run time: the code goes on with
  whichever of the four it gets, and so does the model. The same holds of a field that the
  code copies without a test: the \<^verbatim>\<open>timer_start\<close> of a row is absent, \<^verbatim>\<open>null\<close>,
  \<^verbatim>\<open>false\<close> (what the server writes for a field that is not set) or a string.
\<close>

datatype json =
    JNull | JBool bool | JNum int | JStr string | JArr "json list" | JObj "(string \<times> json) list"

fun truthy :: "json \<Rightarrow> bool" where
  "truthy JNull = False"
| "truthy (JBool b) = b"
| "truthy (JNum n) = (n \<noteq> 0)"
| "truthy (JStr s) = (s \<noteq> [])"
| "truthy (JArr xs) = True"
| "truthy (JObj kvs) = True"

datatype 'a js = Undefined | Null | FalseV | Value 'a

text \<open>
  What the code throws: \<^verbatim>\<open>OdooApiError(message, code, debug)\<close> and
  \<^verbatim>\<open>SessionExpiredError(message)\<close> of \<^verbatim>\<open>types.ts\<close>, a plain \<^verbatim>\<open>Error\<close>, the engine's
  \<^verbatim>\<open>TypeError\<close> and \<^verbatim>\<open>RangeError\<close>, and a thrown value that is not an \<^verbatim>\<open>Error\<close>.
\<close>

datatype exn =
    OdooApiError string "int option" "string option"
  | SessionExpiredError string
  | Error string
  | TypeError string
  | RangeError string
  | NotAnError

definition sessionExpired :: exn where
  "sessionExpired = SessionExpiredError ''Session expired, please login again''"

fun exn_message :: "exn \<Rightarrow> string" where
  "exn_message (OdooApiError m c d) = m"
| "exn_message (SessionExpiredError m) = m"
| "exn_message (Error m) = m"
| "exn_message (TypeError m) = m"
| "exn_message (RangeError m) = m"
| "exn_message NotAnError = []"

subsection \<open>The interfaces of \<^verbatim>\<open>types.ts\<close>\<close>

record SessionInfo =
  sessionId :: string
  baseUrl :: string
  userId :: int
  companyId :: int
  employeeId :: int
  employeeName :: string
  username :: string
  cookies :: "string list option"

datatype attendance = checked_in | checked_out

record AttendanceState =
  attendance_state :: "attendance js"
  last_check_in :: "string option"
  last_check_out :: "string option"
  hours_today :: rat
  employee_name :: string

record TimerState =
  timerId :: "int js"
  projectId :: "int option"
  projectName :: "string option"
  taskId :: "int option"
  taskName :: "string option"
  description :: "string option"
  startTime :: "string js"

record 'a CachedData =
  data :: 'a
  timestamp :: int

record JsonRpcRequest =
  jsonrpc :: string
  rpc_method :: string
  params :: json
  id' :: nat

datatype rpc_error_data = ErrorData (data_message: string) (data_debug: string)

datatype rpc_error = RpcError (code: int) (message: string) (error_data: "rpc_error_data option")

record 'a JsonRpcResponse =
  result :: "'a js"
  error :: "rpc_error option"

text \<open>The result types the call sites declare.\<close>

datatype started = IdNumber int | IdObject int

record running_timer =
  rt_id :: "int option"
  rt_start :: "int option"
  rt_project_id :: "int option"
  rt_task_id :: "int option"
  rt_description :: "string option"
  rt_step_timer :: "int option"

datatype timer_start_row = TimerStartRow (timer_start: "string js")

datatype unit_amount_row = UnitAmountRow (unit_amount: rat)

datatype attendance_user_data =
  AttendanceUserData (ud_attendance_state: attendance) (ud_last_attendance_id: "int option")
    (ud_hours_today: rat)

subsection \<open>HTTP\<close>

text \<open>
  A request as \<^verbatim>\<open>fetch\<close> gets it, and what \<^verbatim>\<open>fetch\<close> gives back: it rejects, with an
  \<^verbatim>\<open>Error\<close> of some message, or resolves to a response. The body of a response is JSON
  of the declared shape, or text on which \<^verbatim>\<open>response.json()\<close> rejects with an \<^verbatim>\<open>Error\<close>
  of some message.
\<close>

record HttpRequest =
  url :: string
  cookie :: "string option"
  body :: JsonRpcRequest

datatype 'a http_body = NotJsonBody string | JsonBody "'a JsonRpcResponse"

record 'a Response =
  status :: nat
  statusText :: string
  set_cookie :: "string option"
  content :: "'a http_body"

datatype 'a fetched = Rejected string | RejectedNotError | Resolved "'a Response"

definition ok :: "'a Response \<Rightarrow> bool" where
  "ok r = (200 \<le> status r \<and> status r \<le> 299)"

type_synonym 'a replies = "nat \<Rightarrow> HttpRequest \<Rightarrow> 'a fetched"

record URL =
  hostname :: string

text \<open>
  The environment: the clock (\<^verbatim>\<open>Date.now()\<close>, by the number of earlier readings), the
  URL parser of the engine, and the server. The server's answer to a call is a function of
  the number of earlier calls and of the request, one function for each declared result
  type.
\<close>

record env =
  clock :: "nat \<Rightarrow> int"
  parseURL :: "string \<Rightarrow> URL option"
  reply_unknown :: "unit replies"
  reply_started :: "started replies"
  reply_running_timer :: "running_timer replies"
  reply_number :: "int replies"
  reply_timer_start :: "timer_start_row list replies"
  reply_unit_amount :: "unit_amount_row list replies"
  reply_names :: "(int \<times> string) list replies"
  reply_attendance :: "AttendanceState replies"
  reply_user_data :: "attendance_user_data replies"
  reply_databases :: "string list replies"

subsection \<open>Storage and the state of a run\<close>

text \<open>
  The storage provider keeps a string under each key. The client only stores the output
  of \<^verbatim>\<open>JSON.stringify\<close> and only reads through \<^verbatim>\<open>JSON.parse\<close>, each key with one
  type, so a stored string is represented by the value it parses to, or by itself when
  \<^verbatim>\<open>JSON.parse\<close> rejects it. The four keys are those of \<^verbatim>\<open>STORAGE_KEYS\<close>.
\<close>

datatype 'a stored = Json 'a | NotJson string

record store =
  odoo_session :: "SessionInfo stored option"
  odoo_user_info :: "string option"
  odoo_attendance_cache :: "AttendanceState js CachedData stored option"
  odoo_timer_cache :: "TimerState CachedData stored option"

record OdooClient =
  this_baseUrl :: string
  this_sessionId :: "string option"
  this_cookies :: "string list"
  this_requestId :: nat

text \<open>
  The state of a run: the storage provider (\<open>None\<close> before \<^verbatim>\<open>initStorage\<close>), the number
  of clock readings so far, the requests sent so far, and the client objects created so
  far (a client is referred to by its index).
\<close>

record world =
  storage :: "store option"
  clock_reads :: nat
  fetches :: "HttpRequest list"
  clients :: "OdooClient list"

type_synonym 'a io = "world \<Rightarrow> (exn + 'a) \<times> world"

definition ret :: "'a \<Rightarrow> 'a io" where
  "ret x = (\<lambda>w. (Inr x, w))"

definition throw :: "exn \<Rightarrow> 'a io" where
  "throw e = (\<lambda>w. (Inl e, w))"

definition andThen :: "'a io \<Rightarrow> ('a \<Rightarrow> 'b io) \<Rightarrow> 'b io" where
  "andThen m f = (\<lambda>w. case m w of (Inl e, w') \<Rightarrow> (Inl e, w') | (Inr x, w') \<Rightarrow> f x w')"

definition try_catch :: "'a io \<Rightarrow> (exn \<Rightarrow> 'a io) \<Rightarrow> 'a io" where
  "try_catch m h =
     (\<lambda>w. case m w of
             (Inl e, w') \<Rightarrow> h e w'
           | (Inr x, w') \<Rightarrow> (Inr x, w'))"

definition dateNow :: "env \<Rightarrow> int io" where
  "dateNow E = (\<lambda>w. (Inr (clock E (clock_reads w)), w\<lparr>clock_reads := Suc (clock_reads w)\<rparr>))"

definition fetch :: "'a replies \<Rightarrow> HttpRequest \<Rightarrow> 'a Response io" where
  "fetch server req =
     (\<lambda>w. let w' = w\<lparr>fetches := fetches w @ [req]\<rparr> in
           case server (length (fetches w)) req of
             Rejected m \<Rightarrow> (Inl (Error m), w')
           | RejectedNotError \<Rightarrow> (Inl NotAnError, w')
           | Resolved r \<Rightarrow> (Inr r, w'))"

definition getStorage :: "store io" where
  "getStorage =
     (\<lambda>w. case storage w of
             None \<Rightarrow> (Inl (Error ''Odoo storage not initialized. Call initStorage() first.''), w)
           | Some s \<Rightarrow> (Inr s, w))"

definition getItem :: "(store \<Rightarrow> 'a option) \<Rightarrow> 'a option io" where
  "getItem key = andThen getStorage (\<lambda>s. ret (key s))"

definition modifyStorage :: "(store \<Rightarrow> store) \<Rightarrow> unit io" where
  "modifyStorage f = andThen getStorage (\<lambda>s w. (Inr (), w\<lparr>storage := Some (f s)\<rparr>))"

definition newClient :: "OdooClient \<Rightarrow> nat io" where
  "newClient c = (\<lambda>w. (Inr (length (clients w)), w\<lparr>clients := clients w @ [c]\<rparr>))"

definition getClient :: "nat \<Rightarrow> OdooClient io" where
  "getClient this = (\<lambda>w. (Inr (clients w ! this), w))"

definition modifyClient :: "nat \<Rightarrow> (OdooClient \<Rightarrow> OdooClient) \<Rightarrow> unit io" where
  "modifyClient this f = (\<lambda>w. (Inr (), w\<lparr>clients := (clients w)[this := f (clients w ! this)]\<rparr>))"


section \<open>\<^verbatim>\<open>Date.prototype.toISOString\<close>\<close>

text \<open>
  The year of a day number is the largest \<open>y\<close> with \<open>dayFromYear y\<close> not after the day;
  it is the estimate by the mean length of a year, or one of its neighbours.
\<close>

definition yearFromDay :: "int \<Rightarrow> int" where
  "yearFromDay d =
     (let y = 1970 + (400 * d) div 146097
      in if dayFromYear (y + 1) \<le> d then y + 1 else if d < dayFromYear y then y - 1 else y)"

definition monthFromDay :: "int \<Rightarrow> int \<Rightarrow> int" where
  "monthFromDay y n =
     (if n < monthStart y 2 then 1 else if n < monthStart y 3 then 2
      else if n < monthStart y 4 then 3 else if n < monthStart y 5 then 4
      else if n < monthStart y 6 then 5 else if n < monthStart y 7 then 6
      else if n < monthStart y 8 then 7 else if n < monthStart y 9 then 8
      else if n < monthStart y 10 then 9 else if n < monthStart y 11 then 10
      else if n < monthStart y 12 then 11 else 12)"

definition pad :: "nat \<Rightarrow> int \<Rightarrow> string" where
  "pad w n = padStart w (showNat (nat n))"

definition showYear :: "int \<Rightarrow> string" where
  "showYear y =
     (if 0 \<le> y \<and> y \<le> 9999 then pad 4 y
      else (if y < 0 then ''-'' else ''+'') @ pad 6 \<bar>y\<bar>)"

definition toISOString :: "int \<Rightarrow> exn + string" where
  "toISOString t =
     (if \<bar>t\<bar> > 8640000000000000 then Inl (RangeError ''Invalid time value'')
      else
        (let d = t div 86400000; r = t mod 86400000;
             y = yearFromDay d; n = d - dayFromYear y;
             m = monthFromDay y n; dd = n - monthStart y m + 1
         in Inr (showYear y @ ''-'' @ pad 2 m @ ''-'' @ pad 2 dd @ ''T''
                 @ pad 2 (r div 3600000) @ '':'' @ pad 2 (r div 60000 mod 60) @ '':''
                 @ pad 2 (r div 1000 mod 60) @ ''.'' @ pad 3 (r mod 1000) @ ''Z'')))"

definition liftE :: "exn + 'a \<Rightarrow> 'a io" where
  "liftE r = (case r of Inl e \<Rightarrow> throw e | Inr x \<Rightarrow> ret x)"

section \<open>The client: \<^verbatim>\<open>client.ts\<close>\<close>

definition stripTrailingSlash :: "string \<Rightarrow> string" where
  "stripTrailingSlash s = (if s \<noteq> [] \<and> last s = CHR ''/'' then butlast s else s)"

definition newOdooClient :: "string \<Rightarrow> string option \<Rightarrow> string list \<Rightarrow> nat io" where
  "newOdooClient base sid cs =
     newClient \<lparr>this_baseUrl = stripTrailingSlash base,
                this_sessionId = sid,
                this_cookies =
                  (if cs \<noteq> [] then cs
                   else (case sid of
                           Some s \<Rightarrow> if s \<noteq> [] then [''session_id='' @ s] else []
                         | None \<Rightarrow> [])),
                this_requestId = 1\<rparr>"

definition getCookies :: "nat \<Rightarrow> string list io" where
  "getCookies this = andThen (getClient this) (\<lambda>c. ret (this_cookies c))"

text \<open>
  \<^verbatim>\<open>updateCookiesFromResponse\<close>. The header is split at each comma that the pattern
  \<^verbatim>\<open>/,(?=[^;]+?=)/\<close> matches: a comma followed by one or more characters other than a
  semicolon and then an equals sign. \<^verbatim>\<open>trim\<close> removes the ASCII white space.
\<close>

definition followedByPair :: "string \<Rightarrow> bool" where
  "followedByPair r = (CHR ''='' \<in> set (drop 1 (takeWhile (\<lambda>c. c \<noteq> CHR '';'') r)))"

fun splitSetCookie :: "string \<Rightarrow> string list" where
  "splitSetCookie [] = [[]]"
| "splitSetCookie (c # s) =
     (if c = CHR '','' \<and> followedByPair s then [] # splitSetCookie s
      else (case splitSetCookie s of
              [] \<Rightarrow> [[c]]
            | p # ps \<Rightarrow> (c # p) # ps))"

definition isSpace :: "char \<Rightarrow> bool" where
  "isSpace c = (c \<in> set [CHR '' '', CHR 0x09, CHR 0x0A, CHR 0x0B, CHR 0x0C, CHR 0x0D])"

definition trim :: "string \<Rightarrow> string" where
  "trim s = rev (dropWhile isSpace (rev (dropWhile isSpace s)))"

definition updateCookie :: "string list \<Rightarrow> string \<Rightarrow> string list" where
  "updateCookie cs cookieHeader =
     (let cookiePair = trim (takeWhile (\<lambda>c. c \<noteq> CHR '';'') cookieHeader);
          name = takeWhile (\<lambda>c. c \<noteq> CHR ''='') cookiePair
      in if name = [] then cs
         else filter (\<lambda>c. \<not> startsWith c (name @ ''='')) cs @ [cookiePair])"

definition updateCookiesFromResponse :: "'a Response \<Rightarrow> OdooClient \<Rightarrow> OdooClient" where
  "updateCookiesFromResponse response c =
     (case set_cookie response of
        None \<Rightarrow> c
      | Some setCookieHeader \<Rightarrow>
          if setCookieHeader = [] then c
          else c\<lparr>this_cookies :=
                   foldl updateCookie (this_cookies c) (splitSetCookie setCookieHeader)\<rparr>)"

fun join :: "string \<Rightarrow> string list \<Rightarrow> string" where
  "join sep [] = []"
| "join sep [x] = x"
| "join sep (x # y # ys) = x @ sep @ join sep (y # ys)"

definition getCookieHeader :: "OdooClient \<Rightarrow> string" where
  "getCookieHeader c = (if this_cookies c = [] then [] else join ''; '' (this_cookies c))"

definition errorMessage :: "rpc_error \<Rightarrow> string" where
  "errorMessage e =
     (case error_data e of
        Some d \<Rightarrow> if data_message d \<noteq> [] then data_message d else message e
      | None \<Rightarrow> message e)"

text \<open>The request that \<^verbatim>\<open>request\<close> sends, from the state of the client.\<close>

definition buildRequest :: "OdooClient \<Rightarrow> string \<Rightarrow> json \<Rightarrow> HttpRequest" where
  "buildRequest c endpoint ps =
     \<lparr>url = this_baseUrl c @ endpoint,
      cookie = (if (case this_sessionId c of Some s \<Rightarrow> s \<noteq> [] | None \<Rightarrow> False)
                   \<or> this_cookies c \<noteq> []
                then Some (getCookieHeader c) else None),
      body = \<lparr>jsonrpc = ''2.0'', rpc_method = ''call'', params = ps, id' = this_requestId c\<rparr>\<rparr>"

definition request :: "'a replies \<Rightarrow> nat \<Rightarrow> string \<Rightarrow> json \<Rightarrow> 'a js io" where
  "request server this endpoint ps =
     andThen (getClient this) (\<lambda>c.
     andThen (modifyClient this (\<lambda>c. c\<lparr>this_requestId := this_requestId c + 1\<rparr>)) (\<lambda>_.
     try_catch
       (andThen (fetch server (buildRequest c endpoint ps)) (\<lambda>response.
        andThen (modifyClient this (updateCookiesFromResponse response)) (\<lambda>_.
        if \<not> ok response then
          (if status response = 401 \<or> status response = 403 then throw sessionExpired
           else throw (OdooApiError
                         (''HTTP '' @ showNat (status response) @ '': '' @ statusText response)
                         (Some (int (status response))) None))
        else
          (case content response of
             NotJsonBody m \<Rightarrow> throw (Error m)
           | JsonBody jsonResponse \<Rightarrow>
               (case error jsonResponse of
                  Some e \<Rightarrow>
                    throw (OdooApiError (errorMessage e) (Some (code e))
                             (map_option data_debug (error_data e)))
                | None \<Rightarrow>
                    if result jsonResponse = FalseV \<and> includes_str endpoint ''/web/session''
                    then throw sessionExpired
                    else ret (result jsonResponse))))))
       (\<lambda>error.
          case error of
            OdooApiError m c d \<Rightarrow> throw error
          | SessionExpiredError m \<Rightarrow> throw error
          | NotAnError \<Rightarrow> throw (OdooApiError ''Unknown error occurred'' None None)
          | _ \<Rightarrow> throw (OdooApiError (''Network error: '' @ exn_message error) None None))))"

fun setKey :: "string \<Rightarrow> json \<Rightarrow> (string \<times> json) list \<Rightarrow> (string \<times> json) list" where
  "setKey k v [] = [(k, v)]"
| "setKey k v ((k', v') # kvs) = (if k = k' then (k, v) # kvs else (k', v') # setKey k v kvs)"

definition callKw ::
  "'a replies \<Rightarrow> nat \<Rightarrow> string \<Rightarrow> string \<Rightarrow> json list \<Rightarrow> (string \<times> json) list \<Rightarrow> 'a js io" where
  "callKw server this model meth args kwargs =
     (let context = (case map_of kwargs ''context'' of
                       Some v \<Rightarrow> if truthy v then v else JObj []
                     | None \<Rightarrow> JObj []);
          finalKwargs = setKey ''context'' context kwargs
      in request server this ''/web/dataset/call_kw''
           (JObj [(''model'', JStr model), (''method'', JStr meth), (''args'', JArr args),
                  (''kwargs'', JObj finalKwargs)]))"


section \<open>Sessions: \<^verbatim>\<open>auth.ts\<close>\<close>

definition getSession :: "SessionInfo option io" where
  "getSession =
     andThen (getItem odoo_session) (\<lambda>sessionStr.
       case sessionStr of
         None \<Rightarrow> ret None
       | Some (NotJson s) \<Rightarrow> ret None
       | Some (Json session) \<Rightarrow> ret (Some session))"

definition clearSession :: "unit io" where
  "clearSession =
     andThen (modifyStorage (\<lambda>s. s\<lparr>odoo_session := None\<rparr>)) (\<lambda>_.
     andThen (modifyStorage (\<lambda>s. s\<lparr>odoo_user_info := None\<rparr>)) (\<lambda>_.
     andThen (modifyStorage (\<lambda>s. s\<lparr>odoo_attendance_cache := None\<rparr>)) (\<lambda>_.
     modifyStorage (\<lambda>s. s\<lparr>odoo_timer_cache := None\<rparr>))))"

definition getAuthenticatedClient :: "nat io" where
  "getAuthenticatedClient =
     andThen getSession (\<lambda>session.
       case session of
         None \<Rightarrow> throw (SessionExpiredError ''No active session found'')
       | Some s \<Rightarrow>
           newOdooClient (baseUrl s) (Some (sessionId s))
             (case cookies s of Some cs \<Rightarrow> cs | None \<Rightarrow> []))"

definition hasActiveSession :: "bool io" where
  "hasActiveSession = andThen getSession (\<lambda>session. ret (session \<noteq> None))"

definition fetchDatabaseList :: "env \<Rightarrow> string \<Rightarrow> string list io" where
  "fetchDatabaseList E base =
     andThen (newOdooClient base None []) (\<lambda>client.
     try_catch
       (andThen (request (reply_databases E) client ''/web/database/list'' (JObj [])) (\<lambda>result.
          ret (case result of Value dbs \<Rightarrow> dbs | _ \<Rightarrow> [])))
       (\<lambda>_. ret []))"

text \<open>\<^verbatim>\<open>hostname.replace(/\.(dev\.)?odoo\.com$/, "")\<close>: the leftmost match is removed.\<close>

definition removeOdooSuffix :: "string \<Rightarrow> string" where
  "removeOdooSuffix h =
     (if endsWith h ''.dev.odoo.com'' then take (length h - 13) h
      else if endsWith h ''.odoo.com'' then take (length h - 9) h
      else h)"

definition extractDatabaseName :: "env \<Rightarrow> string \<Rightarrow> string io" where
  "extractDatabaseName E u =
     try_catch
       (case parseURL E u of
          None \<Rightarrow> throw (TypeError ''Invalid URL'')
        | Some parsedUrl \<Rightarrow>
            if endsWith (hostname parsedUrl) ''.odoo.com'' then
              (let subdomain = removeOdooSuffix (hostname parsedUrl) in
               andThen (fetchDatabaseList E u) (\<lambda>databases.
                 if length databases = 1 then ret (hd databases)
                 else if length databases > 1 then
                   (case List.find (\<lambda>db. startsWith db subdomain) databases of
                      Some match \<Rightarrow> if match \<noteq> [] then ret match else ret (hd databases)
                    | None \<Rightarrow> ret (hd databases))
                 else ret subdomain))
            else
              andThen (fetchDatabaseList E u) (\<lambda>databases.
                if length databases = 1 then ret (hd databases) else ret []))
       (\<lambda>_. ret [])"

definition logout :: "env \<Rightarrow> unit io" where
  "logout E =
     andThen getSession (\<lambda>session.
     andThen (case session of
                None \<Rightarrow> ret ()
              | Some s \<Rightarrow>
                  try_catch
                    (andThen (newOdooClient (baseUrl s) (Some (sessionId s))
                                (case cookies s of Some cs \<Rightarrow> cs | None \<Rightarrow> [])) (\<lambda>client.
                     andThen (request (reply_unknown E) client ''/web/session/destroy'' (JObj []))
                       (\<lambda>_. ret ())))
                    (\<lambda>_. ret ())) (\<lambda>_.
     clearSession))"

section \<open>Timers: \<^verbatim>\<open>timesheet.ts\<close>\<close>

definition TIMER_CACHE_TTL :: int where
  "TIMER_CACHE_TTL = 30 * 1000"

definition cacheTimerState :: "env \<Rightarrow> TimerState \<Rightarrow> unit io" where
  "cacheTimerState E state =
     andThen (dateNow E) (\<lambda>now.
     modifyStorage (\<lambda>s. s\<lparr>odoo_timer_cache := Some (Json \<lparr>data = state, timestamp = now\<rparr>)\<rparr>))"

definition getCachedTimerState :: "env \<Rightarrow> TimerState option io" where
  "getCachedTimerState E =
     andThen (getItem odoo_timer_cache) (\<lambda>raw.
       case raw of
         None \<Rightarrow> ret None
       | Some (NotJson s) \<Rightarrow> ret None
       | Some (Json cached) \<Rightarrow>
           andThen (dateNow E) (\<lambda>now.
             if now - timestamp cached < TIMER_CACHE_TTL then ret (Some (data cached))
             else ret None))"

definition clearTimerCache :: "unit io" where
  "clearTimerCache = modifyStorage (\<lambda>s. s\<lparr>odoo_timer_cache := None\<rparr>)"

text \<open>\<^verbatim>\<open>x || null\<close> on an optional number and on an optional string.\<close>

definition numOrNull :: "int option \<Rightarrow> int option" where
  "numOrNull x = (case x of Some n \<Rightarrow> if n \<noteq> 0 then Some n else None | None \<Rightarrow> None)"

definition strOrNull :: "string option \<Rightarrow> string option" where
  "strOrNull x = (case x of Some s \<Rightarrow> if s \<noteq> [] then Some s else None | None \<Rightarrow> None)"

text \<open>\<^verbatim>\<open>xs.find((p) => p.id === i)?.name || null\<close>; a project or task is its id and name.\<close>

definition nameOf :: "int \<Rightarrow> (int \<times> string) list \<Rightarrow> string option" where
  "nameOf i xs = strOrNull (map_option snd (List.find (\<lambda>p. fst p = i) xs))"

definition getProjects :: "env \<Rightarrow> string \<Rightarrow> (int \<times> string) list io" where
  "getProjects E search =
     andThen getAuthenticatedClient (\<lambda>client.
     andThen (callKw (reply_names E) client ''project.project'' ''name_search'' [JStr search]
                [(''limit'', JNum 50)]) (\<lambda>result.
       case result of
         Value rows \<Rightarrow> ret rows
       | _ \<Rightarrow> throw (TypeError ''result.map is not a function'')))"

definition getTasks :: "env \<Rightarrow> int \<Rightarrow> string \<Rightarrow> (int \<times> string) list io" where
  "getTasks E project search =
     andThen getAuthenticatedClient (\<lambda>client.
     andThen (callKw (reply_names E) client ''project.task'' ''name_search'' [JStr search]
                [(''args'', JArr [JArr [JStr ''project_id'', JStr ''='', JNum project]]),
                 (''limit'', JNum 50)]) (\<lambda>result.
       case result of
         Value rows \<Rightarrow> ret rows
       | _ \<Rightarrow> throw (TypeError ''result.map is not a function'')))"

definition startAt :: "env \<Rightarrow> int \<Rightarrow> (int \<times> string) io" where
  "startAt E timer =
     andThen (dateNow E) (\<lambda>now.
     andThen (liftE (toISOString now)) (\<lambda>start.
     andThen (cacheTimerState E
                \<lparr>timerId = Value timer, projectId = None, projectName = None, taskId = None,
                 taskName = None, description = None, startTime = Value start\<rparr>) (\<lambda>_.
     ret (timer, start))))"

definition startTimer :: "env \<Rightarrow> (int \<times> string) io" where
  "startTimer E =
     andThen getAuthenticatedClient (\<lambda>client.
     try_catch
       (andThen (callKw (reply_started E) client ''account.analytic.line''
                   ''action_start_new_timesheet_timer'' [JObj []] []) (\<lambda>result.
          if result = FalseV \<or> result = Null then
            andThen (callKw (reply_running_timer E) client ''account.analytic.line''
                       ''get_running_timer'' [] []) (\<lambda>timerResult.
              case timerResult of
                Value r \<Rightarrow>
                  (case numOrNull (rt_id r) of
                     None \<Rightarrow>
                       throw (Error ''Timer action succeeded but no running timer found. Please try again.'')
                   | Some timer \<Rightarrow>
                       andThen (dateNow E) (\<lambda>now.
                       andThen (liftE (toISOString
                                  (now - (case rt_start r of Some m \<Rightarrow> m | None \<Rightarrow> 0) * 60000)))
                         (\<lambda>start.
                       andThen (cacheTimerState E
                                  \<lparr>timerId = Value timer,
                                   projectId = numOrNull (rt_project_id r),
                                   projectName = None,
                                   taskId = numOrNull (rt_task_id r),
                                   taskName = None,
                                   description = strOrNull (rt_description r),
                                   startTime = Value start\<rparr>) (\<lambda>_.
                       ret (timer, start)))))
              | _ \<Rightarrow>
                  throw (Error ''Timer action succeeded but no running timer found. Please try again.''))
          else
            (case result of
               Value (IdNumber n) \<Rightarrow>
                 if n = 0 then throw (Error ''Failed to start timer: action returned invalid result'')
                 else startAt E n
             | Value (IdObject n) \<Rightarrow> startAt E n
             | _ \<Rightarrow> throw (Error ''Failed to start timer: action returned invalid result''))))
       (\<lambda>error. throw error))"






definition stopTimer :: "env \<Rightarrow> int \<Rightarrow> rat io" where
  "stopTimer E timer =
     andThen getAuthenticatedClient (\<lambda>client.
     andThen (callKw (reply_unknown E) client ''account.analytic.line'' ''action_timer_stop''
                [JNum timer, JBool True] []) (\<lambda>_.
     andThen clearTimerCache (\<lambda>_.
     andThen (callKw (reply_unit_amount E) client ''account.analytic.line'' ''read''
                [JArr [JNum timer], JArr [JStr ''unit_amount'']] []) (\<lambda>lines.
       ret (case lines of Value (line # rest) \<Rightarrow> unit_amount line * 3600 | _ \<Rightarrow> 0)))))"

definition cancelTimer :: "env \<Rightarrow> int \<Rightarrow> unit io" where
  "cancelTimer E timer =
     andThen getAuthenticatedClient (\<lambda>client.
     andThen (callKw (reply_unknown E) client ''account.analytic.line'' ''action_timer_unlink''
                [JNum timer] []) (\<lambda>_.
     clearTimerCache))"

definition getRunningTimer :: "env \<Rightarrow> bool \<Rightarrow> TimerState option io" where
  "getRunningTimer E useCache =
     andThen (if useCache then getCachedTimerState E else ret None) (\<lambda>cached.
     case cached of
       Some c \<Rightarrow> ret (Some c)
     | None \<Rightarrow>
         andThen getAuthenticatedClient (\<lambda>client.
         try_catch
           (andThen (callKw (reply_running_timer E) client ''account.analytic.line''
                       ''get_running_timer'' [] []) (\<lambda>result.
              case (case result of Value r \<Rightarrow> map_option (\<lambda>i. (r, i)) (numOrNull (rt_id r))
                                 | _ \<Rightarrow> None) of
                None \<Rightarrow> andThen clearTimerCache (\<lambda>_. ret None)
              | Some (r, timer) \<Rightarrow>
                  andThen (callKw (reply_timer_start E) client ''account.analytic.line'' ''read''
                             [JArr [JNum timer], JArr [JStr ''timer_start'']] []) (\<lambda>timerDetails.
                    case timerDetails of
                      Value (row # rows) \<Rightarrow>
                        (let timerState =
                               \<lparr>timerId = Value timer,
                                projectId = numOrNull (rt_project_id r),
                                projectName = None,
                                taskId = numOrNull (rt_task_id r),
                                taskName = None,
                                description = strOrNull (rt_description r),
                                startTime = timer_start row\<rparr>
                         in
                         andThen (case projectId timerState of
                                    None \<Rightarrow> ret timerState
                                  | Some p \<Rightarrow>
                                      andThen (getProjects E []) (\<lambda>projects.
                                        ret (timerState\<lparr>projectName := nameOf p projects\<rparr>)))
                           (\<lambda>timerState.
                         andThen (case (taskId timerState, projectId timerState) of
                                    (Some t, Some p) \<Rightarrow>
                                      andThen (getTasks E p []) (\<lambda>tasks.
                                        ret (timerState\<lparr>taskName := nameOf t tasks\<rparr>))
                                  | _ \<Rightarrow> ret timerState)
                           (\<lambda>timerState.
                         andThen (cacheTimerState E timerState) (\<lambda>_.
                         ret (Some timerState)))))
                    | _ \<Rightarrow> andThen clearTimerCache (\<lambda>_. ret None))))
           (\<lambda>error. ret None)))"

section \<open>Attendance: \<^verbatim>\<open>attendance.ts\<close>\<close>

definition ATTENDANCE_CACHE_TTL :: int where
  "ATTENDANCE_CACHE_TTL = 60 * 1000"

text \<open>
  \<^verbatim>\<open>cacheAttendanceState\<close> stores what it is given, and \<^verbatim>\<open>getCachedAttendanceState\<close>
  gives back the \<^verbatim>\<open>data\<close> of a fresh entry, whatever it is (a member that was
  \<^verbatim>\<open>undefined\<close> is not written, and reads as \<^verbatim>\<open>undefined\<close>), and \<^verbatim>\<open>null\<close> otherwise.
\<close>

definition cacheAttendanceState :: "env \<Rightarrow> AttendanceState js \<Rightarrow> unit io" where
  "cacheAttendanceState E state =
     andThen (dateNow E) (\<lambda>now.
     modifyStorage (\<lambda>s. s\<lparr>odoo_attendance_cache := Some (Json \<lparr>data = state, timestamp = now\<rparr>)\<rparr>))"

definition getCachedAttendanceState :: "env \<Rightarrow> AttendanceState js io" where
  "getCachedAttendanceState E =
     andThen (getItem odoo_attendance_cache) (\<lambda>raw.
       case raw of
         None \<Rightarrow> ret Null
       | Some (NotJson s) \<Rightarrow> ret Null
       | Some (Json cached) \<Rightarrow>
           andThen (dateNow E) (\<lambda>now.
             if now - timestamp cached < ATTENDANCE_CACHE_TTL then ret (data cached)
             else ret Null))"

text \<open>
  \<^verbatim>\<open>getAttendanceStatus\<close>. The result of the status endpoint is stored and returned as it
  is. In the fallback, a result \<^verbatim>\<open>false\<close> has no members: its \<^verbatim>\<open>attendance_state\<close> is
  \<^verbatim>\<open>undefined\<close> and its \<^verbatim>\<open>hours_today || 0\<close> is 0; reading a member of \<^verbatim>\<open>null\<close> or of
  \<^verbatim>\<open>undefined\<close> throws a \<^verbatim>\<open>TypeError\<close>.
\<close>

definition getAttendanceStatus :: "env \<Rightarrow> bool \<Rightarrow> AttendanceState js io" where
  "getAttendanceStatus E useCache =
     andThen (if useCache then getCachedAttendanceState E else ret Null) (\<lambda>cached.
     case cached of
       Value c \<Rightarrow> ret (Value c)
     | _ \<Rightarrow>
         andThen getAuthenticatedClient (\<lambda>client.
         try_catch
           (andThen (request (reply_attendance E) client ''/hr_attendance/attendance_user_data''
                       (JObj [])) (\<lambda>result.
            andThen (cacheAttendanceState E result) (\<lambda>_.
            ret result)))
           (\<lambda>error.
              try_catch
                (andThen (callKw (reply_user_data E) client ''hr.employee''
                            ''attendance_user_data'' [] []) (\<lambda>result.
                   andThen (case result of
                              Value u \<Rightarrow>
                                ret \<lparr>attendance_state = Value (ud_attendance_state u),
                                     last_check_in = None, last_check_out = None,
                                     hours_today = ud_hours_today u, employee_name = []\<rparr>
                            | FalseV \<Rightarrow>
                                ret \<lparr>attendance_state = Undefined,
                                     last_check_in = None, last_check_out = None,
                                     hours_today = 0, employee_name = []\<rparr>
                            | _ \<Rightarrow> throw (TypeError ''Cannot read properties of null''))
                     (\<lambda>attendanceState.
                   andThen (cacheAttendanceState E (Value attendanceState)) (\<lambda>_.
                   ret (Value attendanceState)))))
                (\<lambda>_. throw error))))"

section \<open>Notions for the proofs\<close>

text \<open>
  What a request leaves behind and what it returns, as functions of what \<^verbatim>\<open>fetch\<close>
  gave; lemma \<open>request_run\<close> shows that \<open>request\<close> computes exactly these.
\<close>

definition afterReply :: "'a fetched \<Rightarrow> OdooClient \<Rightarrow> OdooClient" where
  "afterReply f c =
     (case f of
        Resolved r \<Rightarrow> updateCookiesFromResponse r (c\<lparr>this_requestId := this_requestId c + 1\<rparr>)
      | _ \<Rightarrow> c\<lparr>this_requestId := this_requestId c + 1\<rparr>)"

definition outcome :: "string \<Rightarrow> 'a fetched \<Rightarrow> exn + 'a js" where
  "outcome endpoint f =
     (case f of
        Rejected m \<Rightarrow> Inl (OdooApiError (''Network error: '' @ m) None None)
      | RejectedNotError \<Rightarrow> Inl (OdooApiError ''Unknown error occurred'' None None)
      | Resolved r \<Rightarrow>
          if \<not> ok r then
            (if status r = 401 \<or> status r = 403 then Inl sessionExpired
             else Inl (OdooApiError (''HTTP '' @ showNat (status r) @ '': '' @ statusText r)
                         (Some (int (status r))) None))
          else (case content r of
                  NotJsonBody m \<Rightarrow> Inl (OdooApiError (''Network error: '' @ m) None None)
                | JsonBody j \<Rightarrow>
                    (case error j of
                       Some e \<Rightarrow> Inl (OdooApiError (errorMessage e) (Some (code e))
                                        (map_option data_debug (error_data e)))
                     | None \<Rightarrow>
                         if result j = FalseV \<and> includes_str endpoint ''/web/session''
                         then Inl sessionExpired else Inr (result j))))"

text \<open>A reply that carries a result: status 200, no error member.\<close>

definition success :: "'a js \<Rightarrow> 'a fetched" where
  "success x =
     Resolved \<lparr>status = 200, statusText = ''OK'', set_cookie = None,
               content = JsonBody \<lparr>result = x, error = None\<rparr>\<rparr>"

text \<open>A world for examples: storage not initialised, one client without a session.\<close>

definition client0 :: OdooClient where
  "client0 = \<lparr>this_baseUrl = ''https://acme.odoo.com'', this_sessionId = None,
              this_cookies = [], this_requestId = 1\<rparr>"

definition world0 :: world where
  "world0 = \<lparr>storage = None, clock_reads = 0, fetches = [], clients = [client0]\<rparr>"

definition respond :: "nat \<Rightarrow> 'a http_body \<Rightarrow> 'a replies" where
  "respond st b = (\<lambda>n req. Resolved \<lparr>status = st, statusText = ''x'', set_cookie = None, content = b\<rparr>)"

text \<open>
  \<open>returns f x\<close>: the reply \<open>f\<close> is a response of a success status whose body has no
  \<^verbatim>\<open>error\<close> member and carries the result \<open>x\<close>.
\<close>

definition returns :: "'a fetched \<Rightarrow> 'a js \<Rightarrow> bool" where
  "returns f x =
     (case f of
        Resolved r \<Rightarrow>
          ok r \<and> (case content r of JsonBody j \<Rightarrow> error j = None \<and> result j = x | _ \<Rightarrow> False)
      | _ \<Rightarrow> False)"

text \<open>The client that \<open>getAuthenticatedClient\<close> makes of a session, and what \<open>callKw\<close> sends.\<close>

definition sessionClient :: "SessionInfo \<Rightarrow> OdooClient" where
  "sessionClient s =
     \<lparr>this_baseUrl = stripTrailingSlash (baseUrl s),
      this_sessionId = Some (sessionId s),
      this_cookies =
        (if (case cookies s of Some cs \<Rightarrow> cs | None \<Rightarrow> []) \<noteq> []
         then (case cookies s of Some cs \<Rightarrow> cs | None \<Rightarrow> [])
         else if sessionId s \<noteq> [] then [''session_id='' @ sessionId s] else []),
      this_requestId = 1\<rparr>"

definition callParams :: "string \<Rightarrow> string \<Rightarrow> json list \<Rightarrow> (string \<times> json) list \<Rightarrow> json" where
  "callParams model meth args kwargs =
     JObj [(''model'', JStr model), (''method'', JStr meth), (''args'', JArr args),
           (''kwargs'', JObj (setKey ''context''
              (case map_of kwargs ''context'' of
                 Some v \<Rightarrow> if truthy v then v else JObj []
               | None \<Rightarrow> JObj []) kwargs))]"

text \<open>
  An environment and a world for examples: a logged-in session, empty caches; the start
  action answers \<^verbatim>\<open>false\<close>, the lookup answers the timer 42 started five minutes ago,
  every other call answers with a result of its type.
\<close>

definition session0 :: SessionInfo where
  "session0 = \<lparr>sessionId = ''abc'', baseUrl = ''https://acme.odoo.com'', userId = 2,
               companyId = 1, employeeId = 7, employeeName = ''Ada'', username = ''ada'',
               cookies = None\<rparr>"

definition store0 :: store where
  "store0 = \<lparr>odoo_session = Some (Json session0), odoo_user_info = None,
             odoo_attendance_cache = None, odoo_timer_cache = None\<rparr>"

definition world1 :: world where
  "world1 = \<lparr>storage = Some store0, clock_reads = 0, fetches = [], clients = []\<rparr>"

definition timer42 :: running_timer where
  "timer42 = \<lparr>rt_id = Some 42, rt_start = Some 5, rt_project_id = None, rt_task_id = None,
              rt_description = None, rt_step_timer = None\<rparr>"

definition attendance0 :: AttendanceState where
  "attendance0 = \<lparr>attendance_state = Value checked_in, last_check_in = None, last_check_out = None,
                  hours_today = 2, employee_name = ''Ada''\<rparr>"

definition env0 :: env where
  "env0 = \<lparr>clock = (\<lambda>n. 1700000000000 + int n),
            parseURL = (\<lambda>u. if u = ''https://acme.odoo.com''
                              then Some \<lparr>hostname = ''acme.odoo.com''\<rparr> else None),
            reply_unknown = (\<lambda>n req. success (Value ())),
            reply_started = (\<lambda>n req. success FalseV),
            reply_running_timer = (\<lambda>n req. success (Value timer42)),
            reply_number = (\<lambda>n req. success (Value 42)),
            reply_timer_start = (\<lambda>n req. success (Value [TimerStartRow (Value ''2023-11-14 22:08:20'')])),
            reply_unit_amount = (\<lambda>n req. success (Value [UnitAmountRow 2])),
            reply_names = (\<lambda>n req. success (Value [(1, ''Internal'')])),
            reply_attendance = (\<lambda>n req. success (Value attendance0)),
            reply_user_data = (\<lambda>n req. success (Value (AttendanceUserData checked_in None 2))),
            reply_databases = (\<lambda>n req. success (Value [''acme'']))\<rparr>"

text \<open>
  \<open>keeps I m V\<close>: from a world where \<open>I\<close> holds, the program \<open>m\<close> ends in a world where
  \<open>I\<close> holds, and a value it returns satisfies \<open>V\<close>. The invariants used are properties of
  the storage and of the requests sent so far that survive further requests.
\<close>

definition keeps :: "(world \<Rightarrow> bool) \<Rightarrow> 'a io \<Rightarrow> ('a \<Rightarrow> bool) \<Rightarrow> bool" where
  "keeps I m V = (\<forall>w r w'. I w \<and> m w = (r, w') \<longrightarrow> I w' \<and> (\<forall>x. r = Inr x \<longrightarrow> V x))"

definition inv :: "(store option \<Rightarrow> HttpRequest list \<Rightarrow> bool) \<Rightarrow> world \<Rightarrow> bool" where
  "inv P w = P (storage w) (fetches w)"

definition stable :: "(store option \<Rightarrow> HttpRequest list \<Rightarrow> bool) \<Rightarrow> bool" where
  "stable P = (\<forall>s xs ys. P s xs \<longrightarrow> P s (xs @ ys))"

text \<open>
  The invariant of a timer state. \<open>isValue x\<close>: \<open>x\<close> is a value of its type, neither
  absent nor \<^verbatim>\<open>null\<close> nor \<^verbatim>\<open>false\<close>. A timer state whose id is not \<^verbatim>\<open>null\<close> has a
  start time that is a string.
\<close>

definition isValue :: "'a js \<Rightarrow> bool" where
  "isValue x = (case x of Value v \<Rightarrow> True | _ \<Rightarrow> False)"

definition timer_ok :: "TimerState \<Rightarrow> bool" where
  "timer_ok t = (timerId t \<noteq> Null \<longrightarrow> isValue (startTime t))"

text \<open>\<open>cache_ok Q\<close>: the timer state in the cache, if there is one, satisfies \<open>Q\<close>.\<close>

definition cache_ok :: "(TimerState \<Rightarrow> bool) \<Rightarrow> store option \<Rightarrow> HttpRequest list \<Rightarrow> bool" where
  "cache_ok Q s xs =
     (case s of
        None \<Rightarrow> True
      | Some st \<Rightarrow>
          (case odoo_timer_cache st of Some (Json c) \<Rightarrow> Q (data c) | _ \<Rightarrow> True))"

text \<open>
  The invariants that the timer operations keep, for a property \<open>Q\<close> of timer states
  that holds of every state with a string as start time and does not depend on project,
  task and description: they survive further requests and any write of the timer cache
  that removes the entry, leaves text that is not JSON, or stores a state satisfying \<open>Q\<close>;
  and they imply \<open>cache_ok Q\<close>.
\<close>

definition timer_inv ::
  "(TimerState \<Rightarrow> bool) \<Rightarrow> (store option \<Rightarrow> HttpRequest list \<Rightarrow> bool) \<Rightarrow> bool" where
  "timer_inv Q P =
     (stable P
      \<and> (\<forall>s xs v. P (Some s) xs \<and> (\<forall>c. v = Some (Json c) \<longrightarrow> Q (data c))
            \<longrightarrow> P (Some (s\<lparr>odoo_timer_cache := v\<rparr>)) xs)
      \<and> (\<forall>s xs. P s xs \<longrightarrow> cache_ok Q s xs)
      \<and> (\<forall>t. isValue (startTime t) \<longrightarrow> Q t)
      \<and> (\<forall>t a b c d e. Q t \<longrightarrow>
             Q (t\<lparr>projectId := a, projectName := b, taskId := c, taskName := d,
                   description := e\<rparr>)))"


text \<open>The request by which \<open>getRunningTimer\<close> looks the running timer up.\<close>

definition lookupRequest :: "OdooClient \<Rightarrow> HttpRequest" where
  "lookupRequest c =
     buildRequest c ''/web/dataset/call_kw''
       (callParams ''account.analytic.line'' ''get_running_timer'' [] [])"

text \<open>The example world with the timer 42 in the cache.\<close>

definition store2 :: store where
  "store2 = store0\<lparr>odoo_timer_cache :=
     Some (Json \<lparr>data = \<lparr>timerId = Value 42, projectId = None, projectName = None,
                          taskId = None, taskName = None, description = None,
                          startTime = Value ''2023-11-14T22:08:20.000Z''\<rparr>,
                  timestamp = 1700000000000\<rparr>)\<rparr>"

definition world2 :: world where
  "world2 = \<lparr>storage = Some store2, clock_reads = 0, fetches = [], clients = []\<rparr>"

text \<open>The request by which \<open>fetchDatabaseList\<close> asks the server at \<open>u\<close> for its databases.\<close>

definition listRequest :: "string \<Rightarrow> HttpRequest" where
  "listRequest u =
     buildRequest \<lparr>this_baseUrl = stripTrailingSlash u, this_sessionId = None,
                   this_cookies = [], this_requestId = 1\<rparr>
       ''/web/database/list'' (JObj [])"

text \<open>
  Attendance. \<open>attendance_hit E w\<close>: in the world \<open>w\<close> the cache holds an entry that
  parses, is younger than the time to live at the next reading of the clock, and holds a
  state: the entry that a call of \<open>getAttendanceStatus\<close> with the cache enabled returns.
  \<open>status_reply E w\<close> is what the server answers when the next request is the one to the
  status endpoint from the client of the stored session.
\<close>

definition attendance_hit :: "env \<Rightarrow> world \<Rightarrow> bool" where
  "attendance_hit E w =
     (case storage w of
        None \<Rightarrow> False
      | Some s \<Rightarrow>
          (case odoo_attendance_cache s of
             Some (Json c) \<Rightarrow>
               clock E (clock_reads w) - timestamp c < 60000 \<and> isValue (data c)
           | _ \<Rightarrow> False))"

definition status_reply :: "env \<Rightarrow> world \<Rightarrow> AttendanceState fetched option" where
  "status_reply E w =
     (case storage w of
        None \<Rightarrow> None
      | Some s \<Rightarrow>
          (case odoo_session s of
             Some (Json session) \<Rightarrow>
               Some (reply_attendance E (length (fetches w))
                       (buildRequest (sessionClient session)
                          ''/hr_attendance/attendance_user_data'' (JObj [])))
           | _ \<Rightarrow> None))"

text \<open>
  The number of requests of a call of \<open>getAttendanceStatus\<close> that succeeds: none when the
  cache serves it, one when the status endpoint answers, two when it does not (the status
  endpoint and the fallback).
\<close>

definition attendance_requests :: "env \<Rightarrow> world \<Rightarrow> nat" where
  "attendance_requests E w =
     (if attendance_hit E w then 0
      else (case status_reply E w of
              None \<Rightarrow> 0
            | Some f \<Rightarrow>
                (case outcome ''/hr_attendance/attendance_user_data'' f of
                   Inr r \<Rightarrow> 1
                 | Inl e \<Rightarrow> 2)))"

text \<open>
  The example world with an attendance entry that is 59999 ms old at the first reading of
  the clock.
\<close>

definition store3 :: store where
  "store3 = store0\<lparr>odoo_attendance_cache :=
     Some (Json \<lparr>data = Value attendance0, timestamp = 1700000000000 - 59999\<rparr>)\<rparr>"

definition world3 :: world where
  "world3 = \<lparr>storage = Some store3, clock_reads = 0, fetches = [], clients = []\<rparr>"



text \<open>The number of requests sent so far.\<close>

definition sent :: "world \<Rightarrow> nat" where
  "sent w = length (fetches w)"



text \<open>
  The example environment with a status endpoint that is down (the fallback answers), and
  with a status endpoint that answers \<^verbatim>\<open>null\<close>.
\<close>

definition env_status_down :: env where
  "env_status_down = env0\<lparr>reply_attendance := respond 500 (NotJsonBody [])\<rparr>"

definition env_status_null :: env where
  "env_status_null =
     env0\<lparr>reply_attendance := respond 200 (JsonBody \<lparr>result = Null, error = None\<rparr>)\<rparr>"


section \<open>Elapsed seconds\<close>

subsection \<open>The calendar\<close>

lemma div_step:
  fixes k x :: int
  assumes k: "0 < k"
  shows "(x + 1) div k = (if k dvd (x + 1) then x div k + 1 else x div k)"
proof (cases "k dvd (x + 1)")
  case True
  then obtain q where q: "x + 1 = k * q" by (auto simp: dvd_def)
  then have x: "x = k * (q - 1) + (k - 1)" by (simp add: algebra_simps)
  have "x div k = q - 1"
    by (subst x) (use k in \<open>simp add: div_pos_pos_trivial\<close>)
  with True q k show ?thesis by simp
next
  case False
  define r where "r = (x + 1) mod k"
  define q where "q = (x + 1) div k"
  have "r \<noteq> 0" using False by (simp add: r_def dvd_eq_mod_eq_0)
  moreover have "0 \<le> r" "r < k" using k by (simp_all add: r_def)
  ultimately have r: "0 < r" "r < k" by simp_all
  have "x + 1 = k * q + r" by (simp add: q_def r_def)
  then have x: "x = k * q + (r - 1)" by simp
  have "x div k = q"
    by (subst x) (use k r in \<open>simp add: div_pos_pos_trivial\<close>)
  with False show ?thesis by (simp add: q_def)
qed

lemma dayFromYear_next: "dayFromYear (y + 1) = dayFromYear y + 365 + (if leapYear y then 1 else 0)"
proof -
  have e: "4 dvd y - 1968 \<longleftrightarrow> 4 dvd y" "100 dvd y - 1900 \<longleftrightarrow> 100 dvd y"
    "400 dvd y - 1600 \<longleftrightarrow> 400 dvd y"
    by (simp_all add: dvd_diff_left_iff)
  have a: "(y + 1 - 1969) div 4 = (if 4 dvd y then (y - 1969) div 4 + 1 else (y - 1969) div 4)"
    using div_step[of 4 "y - 1969"] by (simp add: e)
  have b: "(y + 1 - 1901) div 100 = (if 100 dvd y then (y - 1901) div 100 + 1 else (y - 1901) div 100)"
    using div_step[of 100 "y - 1901"] by (simp add: e)
  have c: "(y + 1 - 1601) div 400 = (if 400 dvd y then (y - 1601) div 400 + 1 else (y - 1601) div 400)"
    using div_step[of 400 "y - 1601"] by (simp add: e)
  have d: "400 dvd y \<Longrightarrow> 100 dvd y" "100 dvd y \<Longrightarrow> 4 dvd y"
    by (erule dvd_trans[rotated], simp)+
  show ?thesis
    using d unfolding dayFromYear_def leapYear_def a b c
    by (auto simp: dvd_eq_mod_eq_0 [symmetric])
qed

lemma dayFromYear_mono: "y \<le> z \<Longrightarrow> dayFromYear y \<le> dayFromYear z"
proof (induction "nat (z - y)" arbitrary: z)
  case 0
  then show ?case by simp
next
  case (Suc k)
  then have "k = nat (z - 1 - y)" "y \<le> z - 1" by simp_all
  with Suc.hyps(1) have "dayFromYear y \<le> dayFromYear (z - 1)" by blast
  also have "\<dots> \<le> dayFromYear z"
    using dayFromYear_next[of "z - 1"] by simp
  finally show ?case .
qed







subsection \<open>Reading the server's timestamps\<close>










subsection \<open>The order of the calendar\<close>









subsection \<open>The elapsed seconds\<close>




section \<open>Running a program\<close>

lemma ret_run [simp]: "ret x w = (Inr x, w)"
  by (simp add: ret_def)

lemma throw_run [simp]: "throw e w = (Inl e, w)"
  by (simp add: throw_def)

lemma andThen_run:
  "andThen m f w = (case m w of (Inl e, w') \<Rightarrow> (Inl e, w') | (Inr x, w') \<Rightarrow> f x w')"
  by (simp add: andThen_def)

lemma andThen_Inr [simp]: "m w = (Inr x, w') \<Longrightarrow> andThen m f w = f x w'"
  by (simp add: andThen_def)

lemma andThen_Inl [simp]: "m w = (Inl e, w') \<Longrightarrow> andThen m f w = (Inl e, w')"
  by (simp add: andThen_def)

lemma try_catch_Inr [simp]: "m w = (Inr x, w') \<Longrightarrow> try_catch m h w = (Inr x, w')"
  by (simp add: try_catch_def)

lemma try_catch_Inl [simp]: "m w = (Inl e, w') \<Longrightarrow> try_catch m h w = h e w'"
  by (simp add: try_catch_def)

lemma dateNow_run [simp]:
  "dateNow E w = (Inr (clock E (clock_reads w)), w\<lparr>clock_reads := Suc (clock_reads w)\<rparr>)"
  by (simp add: dateNow_def)

lemma getClient_run [simp]: "getClient this w = (Inr (clients w ! this), w)"
  by (simp add: getClient_def)

lemma modifyClient_run [simp]:
  "modifyClient this f w = (Inr (), w\<lparr>clients := (clients w)[this := f (clients w ! this)]\<rparr>)"
  by (simp add: modifyClient_def)

lemma newClient_run [simp]:
  "newClient c w = (Inr (length (clients w)), w\<lparr>clients := clients w @ [c]\<rparr>)"
  by (simp add: newClient_def)

lemma getStorage_run [simp]:
  "storage w = Some s \<Longrightarrow> getStorage w = (Inr s, w)"
  by (simp add: getStorage_def)

lemma getItem_run [simp]: "storage w = Some s \<Longrightarrow> getItem key w = (Inr (key s), w)"
  by (simp add: getItem_def)

lemma modifyStorage_run [simp]:
  "storage w = Some s \<Longrightarrow> modifyStorage f w = (Inr (), w\<lparr>storage := Some (f s)\<rparr>)"
  by (simp add: modifyStorage_def)

lemma fetch_run:
  "fetch server req w =
     (case server (length (fetches w)) req of
        Rejected m \<Rightarrow> Inl (Error m) | RejectedNotError \<Rightarrow> Inl NotAnError | Resolved r \<Rightarrow> Inr r,
      w\<lparr>fetches := fetches w @ [req]\<rparr>)"
  by (simp add: fetch_def Let_def split: fetched.splits)

section \<open>The replies of the server: \<^verbatim>\<open>OdooClient.request\<close>\<close>

lemma update_twice: "xs[i := f (xs[i := a] ! i)] = xs[i := f a]"
  by (cases "i < length xs") (simp_all add: list_update_beyond)

lemma request_run:
  "request server this endpoint ps w =
     (let req = buildRequest (clients w ! this) endpoint ps;
          f = server (length (fetches w)) req
      in (outcome endpoint f,
          w\<lparr>clients := (clients w)[this := afterReply f (clients w ! this)],
            fetches := fetches w @ [req]\<rparr>))"
proof (cases "server (length (fetches w)) (buildRequest (clients w ! this) endpoint ps)")
  case (Rejected m)
  then show ?thesis
    by (simp add: request_def andThen_run try_catch_def fetch_run outcome_def afterReply_def)
next
  case RejectedNotError
  then show ?thesis
    by (simp add: request_def andThen_run try_catch_def fetch_run outcome_def afterReply_def)
next
  case (Resolved r)
  then show ?thesis
    by (auto simp: request_def andThen_run try_catch_def fetch_run outcome_def afterReply_def
        sessionExpired_def update_twice split: http_body.splits option.splits)
qed


lemma includes_str_iff: "includes_str s p \<longleftrightarrow> (\<exists>xs ys. s = xs @ p @ ys)"
proof (induction s)
  case Nil
  then show ?case by simp
next
  case (Cons c s)
  show ?case
  proof
    assume "includes_str (c # s) p"
    then consider "startsWith (c # s) p" | "includes_str s p" by auto
    then show "\<exists>xs ys. c # s = xs @ p @ ys"
    proof cases
      case 1
      then have "c # s = [] @ p @ drop (length p) (c # s)"
        by (metis append_Nil append_take_drop_id startsWith_def)
      then show ?thesis by blast
    next
      case 2
      with Cons obtain xs ys where "s = xs @ p @ ys" by blast
      then have "c # s = (c # xs) @ p @ ys" by simp
      then show ?thesis by blast
    qed
  next
    assume "\<exists>xs ys. c # s = xs @ p @ ys"
    then obtain xs ys where e: "c # s = xs @ p @ ys" by blast
    show "includes_str (c # s) p"
    proof (cases xs)
      case Nil
      with e have "startsWith (c # s) p" by (simp add: startsWith_def)
      then show ?thesis by simp
    next
      case (Cons x xs')
      with e have "s = xs' @ p @ ys" by simp
      with Cons.IH show ?thesis by auto
    qed
  qed
qed

text \<open>
  C3. Whatever the endpoint, the parameters and the body of the response: a response of
  status 401 or 403 makes \<open>request\<close> raise the session-expired error, and a response of
  any other status outside 200 to 299 makes it raise \<open>OdooApiError\<close> with that status as its
  code.
\<close>

theorem request_http_status:
  assumes "server (length (fetches w)) (buildRequest (clients w ! this) endpoint ps) = Resolved r"
    and "\<not> (200 \<le> status r \<and> status r \<le> 299)"
  shows "fst (request server this endpoint ps w) =
           (if status r = 401 \<or> status r = 403
            then Inl (SessionExpiredError ''Session expired, please login again'')
            else Inl (OdooApiError (''HTTP '' @ showNat (status r) @ '': '' @ statusText r)
                        (Some (int (status r))) None))"
  using assms by (simp add: request_run outcome_def ok_def sessionExpired_def)

theorem request_http_status_witness:
  "fst (request (respond 403 (JsonBody \<lparr>result = Value (5::int), error = None\<rparr>)) 0
          ''/web/dataset/call_kw'' (JObj []) world0)
     = Inl (SessionExpiredError ''Session expired, please login again'')
   \<and> fst (request (respond 502 (NotJsonBody ''Unexpected token'') :: int replies) 0
          ''/web/dataset/call_kw'' (JObj []) world0)
     = Inl (OdooApiError ''HTTP 502: x'' (Some 502) None)"
proof -
  have n: "showNat 502 = ''502''" by code_simp
  show ?thesis
    using request_http_status[of "respond 403 (JsonBody \<lparr>result = Value (5::int), error = None\<rparr>)"
        world0 0 "''/web/dataset/call_kw''" "JObj []"]
      request_http_status[of "respond 502 (NotJsonBody ''Unexpected token'') :: int replies"
        world0 0 "''/web/dataset/call_kw''" "JObj []"]
    by (simp add: respond_def n)
qed

text \<open>
  C4, as the code has it. A response of a success status whose body has an \<^verbatim>\<open>error\<close>
  member makes \<open>request\<close> raise \<open>OdooApiError\<close> with the code of the error and, as
  message, the nested \<^verbatim>\<open>error.data.message\<close> when it is present and not the empty string,
  and the top-level \<^verbatim>\<open>error.message\<close> otherwise.
\<close>

theorem request_error_member:
  assumes "server (length (fetches w)) (buildRequest (clients w ! this) endpoint ps) = Resolved r"
    and "200 \<le> status r \<and> status r \<le> 299"
    and "content r = JsonBody j"
    and "error j = Some e"
  shows "fst (request server this endpoint ps w) =
           Inl (OdooApiError
                  (case error_data e of
                     Some d \<Rightarrow> if data_message d \<noteq> [] then data_message d else message e
                   | None \<Rightarrow> message e)
                  (Some (code e))
                  (map_option data_debug (error_data e)))"
  using assms by (simp add: request_run outcome_def ok_def errorMessage_def)

theorem request_error_member_witness:
  "fst (request
          (respond 200 (JsonBody \<lparr>result = (Undefined :: int js),
             error = Some (RpcError 200 ''Odoo Server Error''
                             (Some (ErrorData ''Access Denied'' ''...'')))\<rparr>))
          0 ''/web/dataset/call_kw'' (JObj []) world0)
     = Inl (OdooApiError ''Access Denied'' (Some 200) (Some ''...''))"
  using request_error_member[of
      "respond 200 (JsonBody \<lparr>result = (Undefined :: int js),
             error = Some (RpcError 200 ''Odoo Server Error''
                             (Some (ErrorData ''Access Denied'' ''...'')))\<rparr>)"
      world0 0 "''/web/dataset/call_kw''" "JObj []"]
  by (simp add: respond_def)

text \<open>
  The claim as it is written fails where the nested message is present and empty: the
  error then carries the top-level message.
\<close>

theorem request_error_member_counterexample:
  "fst (request
          (respond 200 (JsonBody \<lparr>result = (Undefined :: int js),
             error = Some (RpcError 200 ''Odoo Server Error'' (Some (ErrorData [] ''trace'')))\<rparr>))
          0 ''/web/dataset/call_kw'' (JObj []) world0)
     = Inl (OdooApiError ''Odoo Server Error'' (Some 200) (Some ''trace''))
   \<and> fst (request
          (respond 200 (JsonBody \<lparr>result = (Undefined :: int js),
             error = Some (RpcError 200 ''Odoo Server Error'' (Some (ErrorData [] ''trace'')))\<rparr>))
          0 ''/web/dataset/call_kw'' (JObj []) world0)
     \<noteq> Inl (OdooApiError (data_message (ErrorData [] ''trace'')) (Some 200) (Some ''trace''))"
  by (simp add: request_run outcome_def ok_def errorMessage_def respond_def)

text \<open>
  C5. A response of a success status, without an \<^verbatim>\<open>error\<close> member, whose result is
  \<^verbatim>\<open>false\<close>: \<open>request\<close> raises the session-expired error exactly when the endpoint
  contains \<^verbatim>\<open>/web/session\<close>, and returns \<^verbatim>\<open>false\<close> when it does not.
\<close>

theorem request_false_result:
  assumes "server (length (fetches w)) (buildRequest (clients w ! this) endpoint ps) = Resolved r"
    and "200 \<le> status r \<and> status r \<le> 299"
    and "content r = JsonBody j"
    and "error j = None"
    and "result j = FalseV"
  shows "(fst (request server this endpoint ps w)
            = Inl (SessionExpiredError ''Session expired, please login again'')
          \<longleftrightarrow> (\<exists>xs ys. endpoint = xs @ ''/web/session'' @ ys))
       \<and> ((\<nexists>xs ys. endpoint = xs @ ''/web/session'' @ ys)
            \<longrightarrow> fst (request server this endpoint ps w) = Inr FalseV)"
proof -
  have "fst (request server this endpoint ps w) =
          (if includes_str endpoint ''/web/session''
           then Inl (SessionExpiredError ''Session expired, please login again'')
           else Inr FalseV)"
    using assms by (simp add: request_run outcome_def ok_def sessionExpired_def)
  then show ?thesis
    unfolding includes_str_iff [symmetric] by simp
qed

theorem request_false_result_witness:
  "fst (request (respond 200 (JsonBody \<lparr>result = (FalseV :: int js), error = None\<rparr>)) 0
          ''/web/session/destroy'' (JObj []) world0)
     = Inl (SessionExpiredError ''Session expired, please login again'')
   \<and> fst (request (respond 200 (JsonBody \<lparr>result = (FalseV :: int js), error = None\<rparr>)) 0
          ''/web/dataset/call_kw'' (JObj []) world0)
     = Inr FalseV"
proof -
  have a: "includes_str ''/web/session/destroy'' ''/web/session''"
    by (simp add: startsWith_def)
  have b: "\<not> includes_str ''/web/dataset/call_kw'' ''/web/session''"
    by (simp add: startsWith_def)
  show ?thesis
    using request_false_result[of "respond 200 (JsonBody \<lparr>result = (FalseV :: int js), error = None\<rparr>)"
        world0 0 "''/web/session/destroy''" "JObj []"]
      request_false_result[of "respond 200 (JsonBody \<lparr>result = (FalseV :: int js), error = None\<rparr>)"
        world0 0 "''/web/dataset/call_kw''" "JObj []"]
      a b
    unfolding includes_str_iff [symmetric] by (simp add: respond_def)
qed


section \<open>Sessions and calls\<close>

lemma getSession_run:
  "storage w = Some s \<Longrightarrow>
   getSession w = (Inr (case odoo_session s of Some (Json x) \<Rightarrow> Some x | _ \<Rightarrow> None), w)"
  by (simp add: getSession_def split: option.splits stored.splits)

lemma getSession_uninitialised:
  "storage w = None \<Longrightarrow>
   getSession w = (Inl (Error ''Odoo storage not initialized. Call initStorage() first.''), w)"
  by (simp add: getSession_def getItem_def getStorage_def andThen_run)

lemma getAuthenticatedClient_run:
  assumes "storage w = Some s" and "odoo_session s = Some (Json session)"
  shows "getAuthenticatedClient w =
           (Inr (length (clients w)), w\<lparr>clients := clients w @ [sessionClient session]\<rparr>)"
  using assms
  by (simp add: getAuthenticatedClient_def getSession_run newOdooClient_def sessionClient_def)

lemma callKw_run:
  "callKw server this model meth args kwargs w =
     (let req = buildRequest (clients w ! this) ''/web/dataset/call_kw''
                  (callParams model meth args kwargs);
          f = server (length (fetches w)) req
      in (outcome ''/web/dataset/call_kw'' f,
          w\<lparr>clients := (clients w)[this := afterReply f (clients w ! this)],
            fetches := fetches w @ [req]\<rparr>))"
  by (simp add: callKw_def callParams_def Let_def request_run)

lemma outcome_returns:
  assumes "returns f x" and "\<not> includes_str endpoint ''/web/session''"
  shows "outcome endpoint f = Inr x"
  using assms
  by (auto simp: returns_def outcome_def split: fetched.splits http_body.splits)

lemma call_kw_no_session: "\<not> includes_str ''/web/dataset/call_kw'' ''/web/session''"
  by (simp add: startsWith_def)

lemma callKw_returns:
  assumes "\<And>req. returns (server (length (fetches w)) req) x"
  shows "callKw server this model meth args kwargs w =
     (Inr x,
      w\<lparr>clients := (clients w)[this := afterReply
             (server (length (fetches w))
                (buildRequest (clients w ! this) ''/web/dataset/call_kw''
                   (callParams model meth args kwargs))) (clients w ! this)],
        fetches := fetches w @ [buildRequest (clients w ! this) ''/web/dataset/call_kw''
                                  (callParams model meth args kwargs)]\<rparr>)"
  by (simp add: callKw_run Let_def outcome_returns[OF assms call_kw_no_session])

lemma cacheTimerState_run:
  "storage w = Some s \<Longrightarrow>
   cacheTimerState E state w =
     (Inr (), w\<lparr>clock_reads := Suc (clock_reads w),
                storage := Some (s\<lparr>odoo_timer_cache :=
                   Some (Json \<lparr>data = state, timestamp = clock E (clock_reads w)\<rparr>)\<rparr>)\<rparr>)"
  by (simp add: cacheTimerState_def)


lemma getCachedTimerState_run:
  "storage w = Some s \<Longrightarrow>
   getCachedTimerState E w =
     (case odoo_timer_cache s of
        Some (Json c) \<Rightarrow>
          (Inr (if clock E (clock_reads w) - timestamp c < TIMER_CACHE_TTL then Some (data c)
                else None),
           w\<lparr>clock_reads := Suc (clock_reads w)\<rparr>)
      | _ \<Rightarrow> (Inr None, w))"
  by (simp add: getCachedTimerState_def split: option.splits stored.splits)

lemma clearTimerCache_run:
  "storage w = Some s \<Longrightarrow>
   clearTimerCache w = (Inr (), w\<lparr>storage := Some (s\<lparr>odoo_timer_cache := None\<rparr>)\<rparr>)"
  by (simp add: clearTimerCache_def)


section \<open>Starting a timer\<close>

lemma returns_success [simp]: "returns (success x) y \<longleftrightarrow> x = y"
  by (auto simp: returns_def success_def ok_def)

text \<open>
  C2. The session is stored; the start action returns \<^verbatim>\<open>false\<close> or \<^verbatim>\<open>null\<close>; the lookup
  of the running timer returns an object with id 42 and start 5 and no project, task or
  description; \<open>T\<close> is the reading of the clock that \<open>startTimer\<close> takes, and \<open>T\<close> less five
  minutes is a time value. Then \<open>startTimer\<close> returns the timer 42 with, as start time,
  the ISO string of \<open>T - 5 * 60000\<close>, and the timer cache holds the state with that id and
  start time and no project, task or description.
\<close>

theorem startTimer_lookup:
  assumes "storage w = Some s" and "odoo_session s = Some (Json session)"
    and "\<And>req. returns (reply_started E (length (fetches w)) req) x"
    and "x = FalseV \<or> x = Null"
    and "\<And>req. returns (reply_running_timer E (Suc (length (fetches w))) req)
            (Value \<lparr>rt_id = Some 42, rt_start = Some 5, rt_project_id = None,
                    rt_task_id = None, rt_description = None, rt_step_timer = step\<rparr>)"
    and "T = clock E (clock_reads w)"
    and "\<bar>T - 5 * 60000\<bar> \<le> 8640000000000000"
  shows "\<exists>iso w' s'.
           toISOString (T - 5 * 60000) = Inr iso
         \<and> startTimer E w = (Inr (42, iso), w')
         \<and> storage w' = Some s'
         \<and> odoo_timer_cache s' =
             Some (Json \<lparr>data = \<lparr>timerId = Value 42, projectId = None, projectName = None,
                                  taskId = None, taskName = None, description = None,
                                  startTime = Value iso\<rparr>,
                          timestamp = clock E (Suc (clock_reads w))\<rparr>)"
proof -
  from assms(7) obtain iso where iso: "toISOString (T - 5 * 60000) = Inr iso"
    by (auto simp: toISOString_def Let_def)
  let ?w1 = "w\<lparr>clients := clients w @ [sessionClient session]\<rparr>"
  have c: "getAuthenticatedClient w = (Inr (length (clients w)), ?w1)"
    using assms(1,2) by (rule getAuthenticatedClient_run)
  have o1: "\<And>req. outcome ''/web/dataset/call_kw'' (reply_started E (length (fetches w)) req) = Inr x"
    using assms(3) by (rule outcome_returns[OF _ call_kw_no_session])
  have o2: "\<And>req. outcome ''/web/dataset/call_kw''
              (reply_running_timer E (Suc (length (fetches w))) req) =
            Inr (Value \<lparr>rt_id = Some 42, rt_start = Some 5, rt_project_id = None,
                    rt_task_id = None, rt_description = None, rt_step_timer = step\<rparr>)"
    using assms(5) by (rule outcome_returns[OF _ call_kw_no_session])
  show ?thesis
    using assms(4) iso assms(1) assms(6)
    by (auto simp: startTimer_def c callKw_run Let_def o1 o2 andThen_run try_catch_def
        cacheTimerState_run numOrNull_def strOrNull_def liftE_def)
qed

theorem startTimer_lookup_witness:
  "fst (startTimer env0 world1) = Inr (42, ''2023-11-14T22:08:20.000Z'')
   \<and> map_option odoo_timer_cache (storage (snd (startTimer env0 world1))) =
       Some (Some (Json \<lparr>data = \<lparr>timerId = Value 42, projectId = None, projectName = None,
                                   taskId = None, taskName = None, description = None,
                                   startTime = Value ''2023-11-14T22:08:20.000Z''\<rparr>,
                           timestamp = 1700000000001\<rparr>))"
proof -
  have iso: "toISOString (1700000000000 - 5 * 60000) = Inr ''2023-11-14T22:08:20.000Z''"
    by code_simp
  have "\<exists>iso w' s'.
           toISOString (1700000000000 - 5 * 60000) = Inr iso
         \<and> startTimer env0 world1 = (Inr (42, iso), w')
         \<and> storage w' = Some s'
         \<and> odoo_timer_cache s' =
             Some (Json \<lparr>data = \<lparr>timerId = Value 42, projectId = None, projectName = None,
                                  taskId = None, taskName = None, description = None,
                                  startTime = Value iso\<rparr>,
                          timestamp = clock env0 (Suc (clock_reads world1))\<rparr>)"
    by (rule startTimer_lookup[where s = store0 and session = session0 and x = FalseV
          and step = None])
      (simp_all add: world1_def store0_def env0_def timer42_def)
  then show ?thesis
    unfolding iso by (auto simp: env0_def world1_def)
qed


section \<open>Invariants of programs\<close>

lemma keepsI:
  assumes "\<And>w r w'. I w \<Longrightarrow> m w = (r, w') \<Longrightarrow> I w' \<and> (\<forall>x. r = Inr x \<longrightarrow> V x)"
  shows "keeps I m V"
  using assms unfolding keeps_def by blast

lemma keepsD:
  assumes "keeps I m V" and "I w" and "m w = (r, w')"
  shows "I w'" and "r = Inr x \<Longrightarrow> V x"
  using assms unfolding keeps_def by blast+

lemma keeps_ret: "V x \<Longrightarrow> keeps I (ret x) V"
  by (simp add: keeps_def)

lemma keeps_throw: "keeps I (throw e) V"
  by (simp add: keeps_def)

lemma keeps_andThen:
  assumes "keeps I m U" and "\<And>x. U x \<Longrightarrow> keeps I (f x) V"
  shows "keeps I (andThen m f) V"
proof (rule keepsI)
  fix w r w'
  assume I: "I w" and run: "andThen m f w = (r, w')"
  obtain r1 w1 where m: "m w = (r1, w1)" by (cases "m w")
  from keepsD[OF assms(1) I m] have I1: "I w1" and U: "\<And>x. r1 = Inr x \<Longrightarrow> U x" by blast+
  show "I w' \<and> (\<forall>x. r = Inr x \<longrightarrow> V x)"
  proof (cases r1)
    case (Inl e)
    with m run I1 show ?thesis by (auto simp: andThen_run)
  next
    case (Inr x)
    with m run have "f x w1 = (r, w')" by (simp add: andThen_run)
    from keepsD[OF assms(2)[OF U[OF Inr]] I1 this] show ?thesis by blast
  qed
qed

lemma keeps_then:
  assumes "keeps I m (\<lambda>_. True)" and "\<And>x. keeps I (f x) V"
  shows "keeps I (andThen m f) V"
  using assms by (rule keeps_andThen)

lemma keeps_try_catch:
  assumes "keeps I m V" and "\<And>e. keeps I (h e) V"
  shows "keeps I (try_catch m h) V"
proof (rule keepsI)
  fix w r w'
  assume I: "I w" and run: "try_catch m h w = (r, w')"
  obtain r1 w1 where m: "m w = (r1, w1)" by (cases "m w")
  from keepsD[OF assms(1) I m] have I1: "I w1" and U: "\<And>x. r1 = Inr x \<Longrightarrow> V x" by blast+
  show "I w' \<and> (\<forall>x. r = Inr x \<longrightarrow> V x)"
  proof (cases r1)
    case (Inl e)
    with m run have "h e w1 = (r, w')" by (simp add: try_catch_def)
    from keepsD[OF assms(2) I1 this] show ?thesis by blast
  next
    case (Inr x)
    with m run I1 U show ?thesis by (auto simp: try_catch_def)
  qed
qed

lemma keeps_weaken:
  assumes "keeps I m U" and "\<And>x. U x \<Longrightarrow> V x"
  shows "keeps I m V"
  using assms unfolding keeps_def by blast


lemma keeps_dateNow: "keeps (inv P) (dateNow E) (\<lambda>_. True)"
  by (simp add: keeps_def inv_def)

lemma keeps_getStorage: "keeps (inv P) getStorage (\<lambda>_. True)"
  by (auto simp: keeps_def inv_def getStorage_def split: option.splits)

lemma keeps_getItem: "keeps (inv P) (getItem key) (\<lambda>_. True)"
  unfolding getItem_def by (intro keeps_then keeps_getStorage keeps_ret TrueI)

lemma keeps_modifyStorage:
  assumes "\<And>s xs. P (Some s) xs \<Longrightarrow> P (Some (f s)) xs"
  shows "keeps (inv P) (modifyStorage f) (\<lambda>_. True)"
  using assms
  by (auto simp: keeps_def inv_def modifyStorage_def getStorage_def andThen_run split: option.splits)

lemma keeps_newOdooClient: "keeps (inv P) (newOdooClient b s c) (\<lambda>_. True)"
  by (simp add: keeps_def inv_def newOdooClient_def)

lemma keeps_request:
  "stable P \<Longrightarrow> keeps (inv P) (request server this endpoint ps) (\<lambda>_. True)"
  by (auto simp: keeps_def inv_def request_run Let_def stable_def)

lemma keeps_callKw:
  "stable P \<Longrightarrow> keeps (inv P) (callKw server this model meth args kwargs) (\<lambda>_. True)"
  by (auto simp: keeps_def inv_def callKw_run Let_def stable_def)

lemma outcome_Inr_returns: "outcome endpoint f = Inr x \<Longrightarrow> returns f x"
  by (auto simp: outcome_def returns_def
      split: fetched.splits if_splits http_body.splits option.splits)

text \<open>What a call returns is the result of some reply of the server.\<close>

lemma keeps_callKw_result:
  assumes "stable P"
  shows "keeps (inv P) (callKw server this model meth args kwargs)
           (\<lambda>x. \<exists>n req. returns (server n req) x)"
proof (rule keepsI)
  fix w r w'
  assume I: "inv P w" and run: "callKw server this model meth args kwargs w = (r, w')"
  from keepsD(1)[OF keeps_callKw[OF assms] I run] have "inv P w'" .
  moreover have "\<exists>n req. returns (server n req) x" if "r = Inr x" for x
    using run that outcome_Inr_returns[of "''/web/dataset/call_kw''" _ x]
    by (auto simp: callKw_run Let_def)
  ultimately show "inv P w' \<and> (\<forall>x. r = Inr x \<longrightarrow> (\<exists>n req. returns (server n req) x))"
    by blast
qed

lemma keeps_getSession: "keeps (inv P) getSession (\<lambda>_. True)"
  unfolding getSession_def
  by (intro keeps_then keeps_getItem) (auto intro: keeps_ret split: option.splits stored.splits)

lemma keeps_getAuthenticatedClient: "keeps (inv P) getAuthenticatedClient (\<lambda>_. True)"
  unfolding getAuthenticatedClient_def
  by (intro keeps_then keeps_getSession)
     (auto intro: keeps_throw keeps_newOdooClient split: option.splits)

lemma keeps_getProjects: "stable P \<Longrightarrow> keeps (inv P) (getProjects E search) (\<lambda>_. True)"
  unfolding getProjects_def
  by (intro keeps_then keeps_getAuthenticatedClient keeps_callKw)
     (auto intro: keeps_throw keeps_ret split: js.splits)

lemma keeps_getTasks: "stable P \<Longrightarrow> keeps (inv P) (getTasks E p search) (\<lambda>_. True)"
  unfolding getTasks_def
  by (intro keeps_then keeps_getAuthenticatedClient keeps_callKw)
     (auto intro: keeps_throw keeps_ret split: js.splits)


section \<open>The running timer\<close>

text \<open>
  C10. The session is stored and the cache is not used or has no valid entry; the lookup
  returns a record with an id (a number other than 0, which \<^verbatim>\<open>!result.id\<close> takes for
  absent); the read of \<^verbatim>\<open>timer_start\<close> returns no rows: \<^verbatim>\<open>null\<close>, the empty list,
  \<^verbatim>\<open>false\<close> or nothing. Then \<open>getRunningTimer\<close> returns \<^verbatim>\<open>null\<close>, raises nothing, and
  leaves the timer cache without an entry.
\<close>

theorem getRunningTimer_no_rows:
  assumes "storage w = Some s" and "odoo_session s = Some (Json session)"
    and "useCache \<Longrightarrow> fst (getCachedTimerState E w) = Inr None"
    and "\<And>req. returns (reply_running_timer E (length (fetches w)) req) (Value r)"
    and "rt_id r = Some i" and "i \<noteq> 0"
    and "\<And>req. returns (reply_timer_start E (Suc (length (fetches w))) req) rows"
    and "rows = Null \<or> rows = Value [] \<or> rows = FalseV \<or> rows = Undefined"
  shows "\<exists>w' s'. getRunningTimer E useCache w = (Inr None, w')
           \<and> storage w' = Some s' \<and> odoo_timer_cache s' = None"
proof -
  obtain w0 where w0: "(if useCache then getCachedTimerState E else ret None) w = (Inr None, w0)"
    "storage w0 = Some s" "fetches w0 = fetches w"
    using assms(1,3)
    by (cases useCache) (auto simp: getCachedTimerState_run split: option.splits stored.splits if_splits)
  let ?w1 = "w0\<lparr>clients := clients w0 @ [sessionClient session]\<rparr>"
  have c: "getAuthenticatedClient w0 = (Inr (length (clients w0)), ?w1)"
    using w0(2) assms(2) by (rule getAuthenticatedClient_run)
  have o1: "\<And>req. outcome ''/web/dataset/call_kw''
              (reply_running_timer E (length (fetches w)) req) = Inr (Value r)"
    using assms(4) by (rule outcome_returns[OF _ call_kw_no_session])
  have o2: "\<And>req. outcome ''/web/dataset/call_kw''
              (reply_timer_start E (Suc (length (fetches w))) req) = Inr rows"
    using assms(7) by (rule outcome_returns[OF _ call_kw_no_session])
  show ?thesis
    using assms(5,6,8) w0
    by (auto simp: getRunningTimer_def c callKw_run Let_def o1 o2 andThen_run
        try_catch_def clearTimerCache_run numOrNull_def)
qed

theorem getRunningTimer_no_rows_witness:
  "fst (getRunningTimer (env0\<lparr>reply_timer_start := (\<lambda>n req. success (Value []))\<rparr>) True world1)
     = Inr None
   \<and> map_option odoo_timer_cache
        (storage (snd (getRunningTimer
           (env0\<lparr>reply_timer_start := (\<lambda>n req. success (Value []))\<rparr>) True world1)))
     = Some None"
proof -
  let ?E = "env0\<lparr>reply_timer_start := (\<lambda>n req. success (Value []))\<rparr>"
  have "\<exists>w' s'. getRunningTimer ?E True world1 = (Inr None, w')
           \<and> storage w' = Some s' \<and> odoo_timer_cache s' = None"
    by (rule getRunningTimer_no_rows[where s = store0 and session = session0 and r = timer42
          and i = 42 and rows = "Value []"])
      (simp_all add: world1_def store0_def env0_def timer42_def getCachedTimerState_run)
  then show ?thesis by auto
qed

section \<open>The timer cache\<close>

lemma timer_inv_stable: "timer_inv Q P \<Longrightarrow> stable P"
  by (simp add: timer_inv_def)


lemma timer_inv_details:
  assumes "timer_inv Q P" and "Q t"
  shows "Q (t\<lparr>projectId := a, projectName := b, taskId := c, taskName := d, description := e\<rparr>)"
  using assms unfolding timer_inv_def by blast

lemma timer_inv_update:
  assumes "timer_inv Q P" and "Q t"
  shows "Q (t\<lparr>projectId := a, projectName := b\<rparr>)" and "Q (t\<lparr>projectName := b\<rparr>)"
    and "Q (t\<lparr>taskId := c\<rparr>)" and "Q (t\<lparr>taskId := c, taskName := d\<rparr>)"
    and "Q (t\<lparr>taskName := d\<rparr>)" and "Q (t\<lparr>description := e\<rparr>)"
  using timer_inv_details[OF assms, where a = a and b = b and c = "taskId t"
      and d = "taskName t" and e = "description t"]
    timer_inv_details[OF assms, where a = "projectId t" and b = b and c = "taskId t"
      and d = "taskName t" and e = "description t"]
    timer_inv_details[OF assms, where a = "projectId t" and b = "projectName t" and c = c
      and d = "taskName t" and e = "description t"]
    timer_inv_details[OF assms, where a = "projectId t" and b = "projectName t" and c = c
      and d = d and e = "description t"]
    timer_inv_details[OF assms, where a = "projectId t" and b = "projectName t"
      and c = "taskId t" and d = d and e = "description t"]
    timer_inv_details[OF assms, where a = "projectId t" and b = "projectName t"
      and c = "taskId t" and d = "taskName t" and e = e]
  by simp_all

lemma timer_ok_details [simp]:
  "timer_ok (t\<lparr>projectId := a, projectName := b, taskId := c, taskName := d, description := e\<rparr>)
     = timer_ok t"
  by (simp add: timer_ok_def)


text \<open>An invariant of the requests alone is kept whatever the cache holds.\<close>

lemma timer_inv_requests:
  assumes "\<And>xs ys. R xs \<Longrightarrow> R (xs @ ys)"
  shows "timer_inv (\<lambda>t. True) (\<lambda>s xs. R xs)"
  using assms by (auto simp: timer_inv_def stable_def cache_ok_def split: option.splits stored.splits)

lemma keeps_clearTimerCache: "timer_inv Q P \<Longrightarrow> keeps (inv P) clearTimerCache (\<lambda>_. True)"
  unfolding clearTimerCache_def
  by (rule keeps_modifyStorage) (simp add: timer_inv_def)

lemma keeps_cacheTimerState:
  assumes "timer_inv Q P" and "Q t"
  shows "keeps (inv P) (cacheTimerState E t) (\<lambda>_. True)"
  unfolding cacheTimerState_def
  by (intro keeps_then keeps_dateNow keeps_modifyStorage) (use assms in \<open>simp add: timer_inv_def\<close>)






lemma keeps_stopTimer:
  assumes "timer_inv Q P"
  shows "keeps (inv P) (stopTimer E timer) (\<lambda>_. True)"
  unfolding stopTimer_def
  by (intro keeps_then keeps_getAuthenticatedClient keeps_callKw timer_inv_stable[OF assms]
        keeps_clearTimerCache[OF assms] keeps_ret TrueI)

lemma keeps_cancelTimer:
  assumes "timer_inv Q P"
  shows "keeps (inv P) (cancelTimer E timer) (\<lambda>_. True)"
  unfolding cancelTimer_def
  by (intro keeps_then keeps_getAuthenticatedClient keeps_callKw timer_inv_stable[OF assms]
        keeps_clearTimerCache[OF assms])


lemma keeps_lookup:
  assumes inv: "timer_inv Q P"
    and rows: "\<And>n req row rows t. returns (reply_timer_start E n req) (Value (row # rows))
                 \<Longrightarrow> startTime t = timer_start row \<Longrightarrow> Q t"
  shows "keeps (inv P)
     (andThen (callKw (reply_timer_start E) client ''account.analytic.line'' ''read''
                             [JArr [JNum timer], JArr [JStr ''timer_start'']] []) (\<lambda>timerDetails.
                    case timerDetails of
                      Value (row # rows) \<Rightarrow>
                        (let timerState =
                               \<lparr>timerId = Value timer,
                                projectId = numOrNull (rt_project_id r),
                                projectName = None,
                                taskId = numOrNull (rt_task_id r),
                                taskName = None,
                                description = strOrNull (rt_description r),
                                startTime = timer_start row\<rparr>
                         in
                         andThen (case projectId timerState of
                                    None \<Rightarrow> ret timerState
                                  | Some p \<Rightarrow>
                                      andThen (getProjects E []) (\<lambda>projects.
                                        ret (timerState\<lparr>projectName := nameOf p projects\<rparr>)))
                           (\<lambda>timerState.
                         andThen (case (taskId timerState, projectId timerState) of
                                    (Some t, Some p) \<Rightarrow>
                                      andThen (getTasks E p []) (\<lambda>tasks.
                                        ret (timerState\<lparr>taskName := nameOf t tasks\<rparr>))
                                  | _ \<Rightarrow> ret timerState)
                           (\<lambda>timerState.
                         andThen (cacheTimerState E timerState) (\<lambda>_.
                         ret (Some timerState)))))
                    | _ \<Rightarrow> andThen clearTimerCache (\<lambda>_. ret None)))
     (\<lambda>r. \<forall>t. r = Some t \<longrightarrow> Q t)"
proof -
  note st = timer_inv_stable[OF inv]
  note up = timer_inv_update[OF inv]
  have step1: "keeps (inv P)
      (case projectId ts of
         None \<Rightarrow> ret ts
       | Some p \<Rightarrow> andThen (getProjects E [])
           (\<lambda>projects. ret (ts\<lparr>projectName := nameOf p projects\<rparr>)))
      Q" if "Q ts" for ts
    using that up(2)
    by (auto split: option.splits intro!: keeps_ret keeps_then keeps_getProjects st)
  have step2: "keeps (inv P)
      (case (taskId ts, projectId ts) of
         (Some t, Some p) \<Rightarrow> andThen (getTasks E p [])
            (\<lambda>tasks. ret (ts\<lparr>taskName := nameOf t tasks\<rparr>))
       | _ \<Rightarrow> ret ts)
      Q" if "Q ts" for ts
    using that up(5)
    by (auto split: option.splits intro!: keeps_ret keeps_then keeps_getTasks st)
  have step3: "keeps (inv P) (andThen (cacheTimerState E ts) (\<lambda>_. ret (Some ts)))
      (\<lambda>r. \<forall>t. r = Some t \<longrightarrow> Q t)" if "Q ts" for ts
    using that by (auto intro!: keeps_then keeps_cacheTimerState[OF inv] keeps_ret)
  have none: "keeps (inv P) (andThen clearTimerCache (\<lambda>_. ret None))
      (\<lambda>r. \<forall>t. r = Some t \<longrightarrow> Q t)"
    by (auto intro!: keeps_then keeps_clearTimerCache[OF inv] keeps_ret)
  show ?thesis
  proof (rule keeps_andThen[OF keeps_callKw_result[OF st]])
    fix timerDetails :: "timer_start_row list js"
    assume reply: "\<exists>n req. returns (reply_timer_start E n req) timerDetails"
    show "keeps (inv P)
       (case timerDetails of
          Value [] \<Rightarrow> andThen clearTimerCache (\<lambda>_. ret None)
        | Value (row # rows) \<Rightarrow>
            (let timerState =
                   \<lparr>timerId = Value timer, projectId = numOrNull (rt_project_id r),
                    projectName = None, taskId = numOrNull (rt_task_id r), taskName = None,
                    description = strOrNull (rt_description r),
                    startTime = timer_start row\<rparr>
             in andThen (case projectId timerState of
                           None \<Rightarrow> ret timerState
                         | Some p \<Rightarrow>
                             andThen (getProjects E []) (\<lambda>projects.
                               ret (timerState\<lparr>projectName := nameOf p projects\<rparr>)))
                  (\<lambda>timerState.
                andThen (case (taskId timerState, projectId timerState) of
                           (Some t, Some p) \<Rightarrow>
                             andThen (getTasks E p []) (\<lambda>tasks.
                               ret (timerState\<lparr>taskName := nameOf t tasks\<rparr>))
                         | _ \<Rightarrow> ret timerState)
                  (\<lambda>timerState.
                andThen (cacheTimerState E timerState) (\<lambda>_.
                ret (Some timerState)))))
        | _ \<Rightarrow> andThen clearTimerCache (\<lambda>_. ret None))
       (\<lambda>r. \<forall>t. r = Some t \<longrightarrow> Q t)"
    proof (cases timerDetails)
      case (Value rs)
      show ?thesis
      proof (cases rs)
        case Nil
        with Value none show ?thesis by simp
      next
        case (Cons row rest)
        from reply obtain n req where "returns (reply_timer_start E n req) (Value (row # rest))"
          unfolding Value Cons by blast
        then have ts: "Q \<lparr>timerId = Value timer, projectId = numOrNull (rt_project_id r),
                    projectName = None, taskId = numOrNull (rt_task_id r), taskName = None,
                    description = strOrNull (rt_description r),
                    startTime = timer_start row\<rparr>"
          by (rule rows) simp
        show ?thesis
          unfolding Value Cons js.case list.case Let_def
          by (rule keeps_andThen[OF step1[OF ts]], rule keeps_andThen[OF step2], assumption,
              rule step3, assumption)
      qed
    qed (use none in simp_all)
  qed
qed

lemma keeps_lookup_result:
  fixes result :: "running_timer js"
  assumes "timer_inv Q P"
    and "\<And>r timer. keeps (inv P) (K r timer) (\<lambda>r. \<forall>t. r = Some t \<longrightarrow> Q t)"
  shows "keeps (inv P)
      (case (case result of Value r \<Rightarrow> map_option (\<lambda>i. (r, i)) (numOrNull (rt_id r))
                           | _ \<Rightarrow> None) of
         None \<Rightarrow> andThen clearTimerCache (\<lambda>_. ret None)
       | Some (r, timer) \<Rightarrow> K r timer)
      (\<lambda>r. \<forall>t. r = Some t \<longrightarrow> Q t)"
  using assms
  by (auto split: option.splits intro!: keeps_then keeps_clearTimerCache keeps_ret)


section \<open>Stopping and cancelling\<close>

lemma getAuthenticatedClient_Inr:
  assumes "getAuthenticatedClient w = (Inr c, w')"
  obtains s session where "storage w = Some s" and "odoo_session s = Some (Json session)"
    and "c = length (clients w)" and "w' = w\<lparr>clients := clients w @ [sessionClient session]\<rparr>"
proof (cases "storage w")
  case None
  with assms show ?thesis
    by (simp add: getAuthenticatedClient_def getSession_uninitialised)
next
  case (Some s)
  show ?thesis
  proof (cases "odoo_session s")
    case None
    with Some assms show ?thesis
      by (simp add: getAuthenticatedClient_def getSession_run)
  next
    case (Some x)
    show ?thesis
    proof (cases x)
      case (Json session)
      with \<open>storage w = Some s\<close> Some assms that show ?thesis
        by (auto simp: getAuthenticatedClient_run)
    next
      case (NotJson t)
      with \<open>storage w = Some s\<close> Some assms show ?thesis
        by (simp add: getAuthenticatedClient_def getSession_run)
    qed
  qed
qed

lemma stopTimer_Inr:
  assumes "stopTimer E timer w = (Inr d, w1)"
  obtains s session where "storage w = Some s" and "odoo_session s = Some (Json session)"
    and "storage w1 = Some (s\<lparr>odoo_timer_cache := None\<rparr>)"
proof -
  from assms obtain c wa where a: "getAuthenticatedClient w = (Inr c, wa)"
    by (auto simp: stopTimer_def andThen_run split: prod.splits sum.splits)
  then obtain s session where s: "storage w = Some s" "odoo_session s = Some (Json session)"
    and wa: "wa = w\<lparr>clients := clients w @ [sessionClient session]\<rparr>"
    by (rule getAuthenticatedClient_Inr)
  from assms a wa s have "storage w1 = Some (s\<lparr>odoo_timer_cache := None\<rparr>)"
    by (auto simp: stopTimer_def andThen_run callKw_run Let_def clearTimerCache_run
        split: sum.splits)
  with s that show ?thesis by blast
qed

lemma cancelTimer_Inr:
  assumes "cancelTimer E timer w = (Inr d, w1)"
  obtains s session where "storage w = Some s" and "odoo_session s = Some (Json session)"
    and "storage w1 = Some (s\<lparr>odoo_timer_cache := None\<rparr>)"
proof -
  from assms obtain c wa where a: "getAuthenticatedClient w = (Inr c, wa)"
    by (auto simp: cancelTimer_def andThen_run split: prod.splits sum.splits)
  then obtain s session where s: "storage w = Some s" "odoo_session s = Some (Json session)"
    and wa: "wa = w\<lparr>clients := clients w @ [sessionClient session]\<rparr>"
    by (rule getAuthenticatedClient_Inr)
  from assms a wa s have "storage w1 = Some (s\<lparr>odoo_timer_cache := None\<rparr>)"
    by (auto simp: cancelTimer_def andThen_run callKw_run Let_def clearTimerCache_run
        split: sum.splits)
  with s that show ?thesis by blast
qed

lemma try_first:
  assumes K: "\<And>x. keeps I (K x) V" and H: "\<And>e. keeps I (H e) V" and I: "I (snd (m w))"
  shows "I (snd (try_catch (andThen m K) H w))"
proof -
  obtain r w' where m: "m w = (r, w')" by (cases "m w")
  with I have I': "I w'" by simp
  have "keeps I (\<lambda>v. case r of Inl e \<Rightarrow> (Inl e, v) | Inr x \<Rightarrow> K x v) V"
    by (cases r) (use K in \<open>auto simp: keeps_def\<close>)
  then have "keeps I (try_catch (\<lambda>v. case r of Inl e \<Rightarrow> (Inl e, v) | Inr x \<Rightarrow> K x v) H) V"
    using H by (rule keeps_try_catch)
  moreover have "try_catch (andThen m K) H w
      = try_catch (\<lambda>v. case r of Inl e \<Rightarrow> (Inl e, v) | Inr x \<Rightarrow> K x v) H w'"
    using m by (simp add: try_catch_def andThen_run split: sum.splits)
  ultimately show ?thesis
    using I' keepsD(1)[of I _ V w' "fst (try_catch (andThen m K) H w)"
        "snd (try_catch (andThen m K) H w)"]
    by simp
qed

lemma getRunningTimer_fresh:
  assumes s: "storage w = Some s" and session: "odoo_session s = Some (Json session)"
    and miss: "odoo_timer_cache s = None"
  shows "\<exists>rest. fetches (snd (getRunningTimer E useCache w))
           = fetches w @ lookupRequest (sessionClient session) # rest"
proof -
  let ?pre = "fetches w @ [lookupRequest (sessionClient session)]"
  let ?P = "\<lambda>(s :: store option) xs. \<exists>rest. xs = ?pre @ rest"
  let ?wB = "w\<lparr>clients := clients w @ [sessionClient session]\<rparr>"
  have P: "timer_inv (\<lambda>t. True) ?P"
    by (rule timer_inv_requests) auto
  have check: "(if useCache then getCachedTimerState E else ret None) w = (Inr None, w)"
    using s miss by (simp add: getCachedTimerState_run)
  have client: "getAuthenticatedClient w = (Inr (length (clients w)), ?wB)"
    using s session by (rule getAuthenticatedClient_run)
  have first: "inv ?P (snd (callKw (reply_running_timer E) (length (clients w))
       ''account.analytic.line'' ''get_running_timer'' [] [] ?wB))"
    by (simp add: inv_def callKw_run Let_def lookupRequest_def)
  have "inv ?P (snd (getRunningTimer E useCache w))"
    unfolding getRunningTimer_def
    apply (subst andThen_Inr[where m = "if useCache then getCachedTimerState E else ret None"
          and w = w, OF check])
    apply (simp only: option.case)
    apply (subst andThen_Inr[where m = getAuthenticatedClient and w = w, OF client])
    apply (rule try_first[where I = "inv ?P" and w = ?wB
          and m = "callKw (reply_running_timer E) (length (clients w))
                     ''account.analytic.line'' ''get_running_timer'' [] []"
          and V = "\<lambda>r. \<forall>t. r = Some t \<longrightarrow> True"])
      prefer 3
      apply (rule first)
     apply (rule keeps_lookup_result[OF P])
     apply (rule keeps_lookup[OF P])
     apply (rule TrueI)
    apply (rule keeps_ret, simp)
    done
  then show ?thesis by (simp add: inv_def)
qed

text \<open>
  C6. After a successful \<open>stopTimer\<close> or \<open>cancelTimer\<close> the storage has no timer cache
  entry; the cache read of a following \<open>getRunningTimer\<close> with the cache enabled finds
  nothing, and the first request that this call sends after those sent so far is the
  lookup of the running timer.
\<close>

theorem stop_cancel_clears_cache:
  assumes "stopTimer E timer w = (Inr d, w1) \<or> cancelTimer E timer w = (Inr (), w1)"
  shows "\<exists>s1 session.
           storage w1 = Some s1 \<and> odoo_timer_cache s1 = None
         \<and> odoo_session s1 = Some (Json session)
         \<and> getCachedTimerState E w1 = (Inr None, w1)
         \<and> (\<exists>rest. fetches (snd (getRunningTimer E True w1))
                     = fetches w1 @ lookupRequest (sessionClient session) # rest)"
proof -
  from assms obtain s session where s: "storage w = Some s" "odoo_session s = Some (Json session)"
    and s1: "storage w1 = Some (s\<lparr>odoo_timer_cache := None\<rparr>)"
  proof
    assume "stopTimer E timer w = (Inr d, w1)"
    then show ?thesis by (rule stopTimer_Inr) (rule that)
  next
    assume "cancelTimer E timer w = (Inr (), w1)"
    then show ?thesis by (rule cancelTimer_Inr) (rule that)
  qed
  let ?s1 = "s\<lparr>odoo_timer_cache := None\<rparr>"
  have a: "odoo_timer_cache ?s1 = None" "odoo_session ?s1 = Some (Json session)"
    using s by simp_all
  have b: "getCachedTimerState E w1 = (Inr None, w1)"
    using s1 by (simp add: getCachedTimerState_run)
  from getRunningTimer_fresh[OF s1 a(2) a(1)] s1 a b show ?thesis by blast
qed


theorem stop_cancel_clears_cache_witness:
  "map_option odoo_timer_cache (storage (snd (stopTimer env0 42 world2))) = Some None
   \<and> length (fetches (snd (getRunningTimer env0 True (snd (stopTimer env0 42 world2)))))
       > length (fetches (snd (stopTimer env0 42 world2)))"
proof -
  have "fst (stopTimer env0 42 world2) = Inr 7200"
    by code_simp
  then have run: "stopTimer env0 42 world2 = (Inr 7200, snd (stopTimer env0 42 world2))"
    by (simp add: prod_eq_iff)
  from stop_cancel_clears_cache[of env0 42 world2 7200 "snd (stopTimer env0 42 world2)"] run
  show ?thesis by auto
qed

section \<open>The invariant of the timer state\<close>



lemma isValue_iff: "isValue x \<longleftrightarrow> (\<exists>v. x = Value v)"
  by (cases x) (simp_all add: isValue_def)





section \<open>The database name\<close>

lemma fetchDatabaseList_run:
  "\<exists>w'. fetchDatabaseList E u w =
     (Inr (case outcome ''/web/database/list'' (reply_databases E (length (fetches w)) (listRequest u)) of
             Inr (Value dbs) \<Rightarrow> dbs
           | _ \<Rightarrow> []), w')"
  by (auto simp: fetchDatabaseList_def newOdooClient_def andThen_run try_catch_def request_run
      Let_def listRequest_def split: sum.splits js.splits)

lemma outcome_list_returns:
  "returns f (Value dbs) \<Longrightarrow> outcome ''/web/database/list'' f = Inr (Value dbs)"
  by (rule outcome_returns) (simp_all add: startsWith_def)

lemma outcome_list_fails:
  assumes "\<nexists>dbs. returns f (Value dbs)"
  shows "(case outcome ''/web/database/list'' f of Inr (Value dbs) \<Rightarrow> dbs | _ \<Rightarrow> []) = []"
  using assms
  by (auto simp: returns_def outcome_def split: fetched.splits http_body.splits option.splits
      sum.splits js.splits)

lemma find_empty_match:
  assumes "List.find (\<lambda>db. startsWith db sub) dbs = Some []"
  shows "hd dbs = []"
proof -
  from assms have "startsWith [] sub" by (auto simp: find_Some_iff)
  then have "sub = []" by (simp add: startsWith_def)
  with assms show ?thesis
    by (cases dbs) (auto simp: startsWith_def split: if_splits)
qed

lemma find_match:
  "(case List.find (\<lambda>db. startsWith db sub) dbs of
      Some match \<Rightarrow> if match \<noteq> [] then match else hd dbs
    | None \<Rightarrow> hd dbs)
   = (case List.find (\<lambda>db. startsWith db sub) dbs of Some m \<Rightarrow> m | None \<Rightarrow> hd dbs)"
proof (cases "List.find (\<lambda>db. startsWith db sub) dbs")
  case None
  then show ?thesis by simp
next
  case (Some m)
  then show ?thesis
    by (cases "m = []") (simp_all add: find_empty_match)
qed

lemma extractDatabaseName_run:
  assumes "parseURL E u = Some p" and "endsWith (hostname p) ''.odoo.com''"
    and "dbs = (case outcome ''/web/database/list''
                       (reply_databases E (length (fetches w)) (listRequest u)) of
                  Inr (Value dbs) \<Rightarrow> dbs
                | _ \<Rightarrow> [])"
  shows "fst (extractDatabaseName E u w) =
     Inr (case dbs of
            [] \<Rightarrow> removeOdooSuffix (hostname p)
          | [d] \<Rightarrow> d
          | _ \<Rightarrow> (case List.find (\<lambda>db. startsWith db (removeOdooSuffix (hostname p))) dbs of
                     Some m \<Rightarrow> m
                   | None \<Rightarrow> hd dbs))"
proof -
  obtain w' where f: "fetchDatabaseList E u w = (Inr dbs, w')"
    using fetchDatabaseList_run[of E u w] assms(3) by auto
  let ?sub = "removeOdooSuffix (hostname p)"
  have "extractDatabaseName E u w =
      (Inr (if length dbs = 1 then hd dbs
            else if length dbs > 1 then
              (case List.find (\<lambda>db. startsWith db ?sub) dbs of
                 Some match \<Rightarrow> if match \<noteq> [] then match else hd dbs
               | None \<Rightarrow> hd dbs)
            else ?sub), w')"
    using assms(1,2)
    by (simp add: extractDatabaseName_def try_catch_def
        andThen_Inr[where m = "fetchDatabaseList E u" and w = w, OF f] Let_def
        split: option.splits)
  then have "fst (extractDatabaseName E u w) =
      Inr (if length dbs = 1 then hd dbs
           else if length dbs > 1 then
             (case List.find (\<lambda>db. startsWith db ?sub) dbs of Some m \<Rightarrow> m | None \<Rightarrow> hd dbs)
           else ?sub)"
    by (simp add: find_match)
  then show ?thesis
    by (cases dbs rule: list.exhaust[case_names Nil Cons])
       (simp_all split: list.splits)
qed

lemma endsWith_split: "endsWith h s \<Longrightarrow> h = take (length h - length s) h @ s"
  by (metis append_take_drop_id endsWith_def)

lemma removeOdooSuffix_hostname:
  assumes "endsWith h ''.odoo.com''"
  shows "h = removeOdooSuffix h @ ''.odoo.com'' \<or> h = removeOdooSuffix h @ ''.dev.odoo.com''"
proof -
  have l: "length ''.dev.odoo.com'' = 13" "length ''.odoo.com'' = 9" by simp_all
  show ?thesis
  proof (cases "endsWith h ''.dev.odoo.com''")
    case True
    from endsWith_split[OF this, unfolded l] show ?thesis
      by (simp only: removeOdooSuffix_def True if_True) simp
  next
    case False
    from endsWith_split[OF assms, unfolded l] show ?thesis
      by (simp only: removeOdooSuffix_def False assms if_True if_False) simp
  qed
qed

text \<open>
  C8. The URL parses to a host name that ends in \<^verbatim>\<open>.odoo.com\<close>; \<open>sub\<close> is the host name
  without the suffix \<^verbatim>\<open>.odoo.com\<close> or \<^verbatim>\<open>.dev.odoo.com\<close>; \<open>reply\<close> is what the server
  answers to the listing request. When the reply is a list of names, the database is the
  only name of a list of one, of a longer list the first name that starts with \<open>sub\<close>
  or else the first name, and \<open>sub\<close> for the empty list. When the reply is anything else
  (the request fails, the status is an error, the body is not JSON or has an error member,
  the result is not a list), the database is \<open>sub\<close>.
\<close>

theorem extractDatabaseName_odoo_com:
  assumes "parseURL E u = Some p" and "endsWith (hostname p) ''.odoo.com''"
    and "sub = removeOdooSuffix (hostname p)"
    and "reply = reply_databases E (length (fetches w)) (listRequest u)"
  shows "(\<forall>dbs. returns reply (Value dbs) \<longrightarrow>
            fst (extractDatabaseName E u w) =
              Inr (case dbs of
                     [] \<Rightarrow> sub
                   | [d] \<Rightarrow> d
                   | _ \<Rightarrow> (case List.find (\<lambda>db. startsWith db sub) dbs of
                              Some m \<Rightarrow> m
                            | None \<Rightarrow> hd dbs)))
       \<and> ((\<nexists>dbs. returns reply (Value dbs)) \<longrightarrow> fst (extractDatabaseName E u w) = Inr sub)
       \<and> (hostname p = sub @ ''.odoo.com'' \<or> hostname p = sub @ ''.dev.odoo.com'')"
proof (intro conjI allI impI)
  fix dbs
  assume "returns reply (Value dbs)"
  then have "dbs = (case outcome ''/web/database/list'' reply of Inr (Value dbs) \<Rightarrow> dbs | _ \<Rightarrow> [])"
    by (simp add: outcome_list_returns)
  from extractDatabaseName_run[OF assms(1,2) this[unfolded assms(4)]]
  show "fst (extractDatabaseName E u w) =
          Inr (case dbs of
                 [] \<Rightarrow> sub
               | [d] \<Rightarrow> d
               | _ \<Rightarrow> (case List.find (\<lambda>db. startsWith db sub) dbs of
                          Some m \<Rightarrow> m
                        | None \<Rightarrow> hd dbs))"
    unfolding assms(3) .
next
  assume "\<nexists>dbs. returns reply (Value dbs)"
  then have "[] = (case outcome ''/web/database/list'' reply of Inr (Value dbs) \<Rightarrow> dbs | _ \<Rightarrow> [])"
    by (simp add: outcome_list_fails)
  from extractDatabaseName_run[OF assms(1,2) this[unfolded assms(4)]]
  show "fst (extractDatabaseName E u w) = Inr sub"
    unfolding assms(3) by simp
next
  show "hostname p = sub @ ''.odoo.com'' \<or> hostname p = sub @ ''.dev.odoo.com''"
    using removeOdooSuffix_hostname[OF assms(2)] assms(3) by simp
qed


theorem extractDatabaseName_odoo_com_witness:
  "fst (extractDatabaseName env0 ''https://acme.odoo.com'' world0) = Inr ''acme''
   \<and> fst (extractDatabaseName
           (env0\<lparr>reply_databases := (\<lambda>n req. success (Value [''other'', ''acme-prod'', ''acme'']))\<rparr>)
           ''https://acme.odoo.com'' world0) = Inr ''acme-prod''"
proof -
  let ?E = "env0\<lparr>reply_databases := (\<lambda>n req. success (Value [''other'', ''acme-prod'', ''acme'']))\<rparr>"
  have p: "parseURL env0 ''https://acme.odoo.com'' = Some \<lparr>hostname = ''acme.odoo.com''\<rparr>"
    "parseURL ?E ''https://acme.odoo.com'' = Some \<lparr>hostname = ''acme.odoo.com''\<rparr>"
    by (simp_all add: env0_def)
  have e: "endsWith (hostname \<lparr>hostname = ''acme.odoo.com''\<rparr>) ''.odoo.com''"
    by (simp add: endsWith_def)
  have s: "''acme'' = removeOdooSuffix (hostname \<lparr>hostname = ''acme.odoo.com''\<rparr>)"
    by (simp add: removeOdooSuffix_def endsWith_def)
  have r: "success (Value [''acme'']) =
             reply_databases env0 (length (fetches world0)) (listRequest ''https://acme.odoo.com'')"
    "success (Value [''other'', ''acme-prod'', ''acme'']) =
             reply_databases ?E (length (fetches world0)) (listRequest ''https://acme.odoo.com'')"
    by (simp_all add: env0_def)
  from extractDatabaseName_odoo_com[OF p(1) e s r(1)]
    extractDatabaseName_odoo_com[OF p(2) e s r(2)]
  show ?thesis
    by (simp add: startsWith_def)
qed

section \<open>Attendance\<close>

lemma cacheAttendanceState_run:
  "storage w = Some s \<Longrightarrow>
   cacheAttendanceState E state w =
     (Inr (), w\<lparr>clock_reads := Suc (clock_reads w),
                storage := Some (s\<lparr>odoo_attendance_cache :=
                   Some (Json \<lparr>data = state, timestamp = clock E (clock_reads w)\<rparr>)\<rparr>)\<rparr>)"
  by (simp add: cacheAttendanceState_def)

lemma getCachedAttendanceState_run:
  "storage w = Some s \<Longrightarrow>
   getCachedAttendanceState E w =
     (case odoo_attendance_cache s of
        Some (Json c) \<Rightarrow>
          (Inr (if clock E (clock_reads w) - timestamp c < ATTENDANCE_CACHE_TTL then data c
                else Null),
           w\<lparr>clock_reads := Suc (clock_reads w)\<rparr>)
      | _ \<Rightarrow> (Inr Null, w))"
  by (simp add: getCachedAttendanceState_def split: option.splits stored.splits)

lemma getCachedAttendanceState_uninitialised:
  "storage w = None \<Longrightarrow> \<exists>e. getCachedAttendanceState E w = (Inl e, w)"
  by (simp add: getCachedAttendanceState_def getItem_def getStorage_def andThen_run)

text \<open>
  What the cache check of a call gives: the state of a valid entry, or something that is
  not a state; it sends nothing and leaves the storage as it is.
\<close>

lemma attendance_check:
  assumes "storage w = Some s"
  shows "\<exists>x w0. getCachedAttendanceState E w = (Inr x, w0)
           \<and> storage w0 = Some s \<and> fetches w0 = fetches w
           \<and> (attendance_hit E w \<longleftrightarrow> isValue x)
           \<and> (attendance_hit E w \<longrightarrow>
                (\<exists>c. odoo_attendance_cache s = Some (Json c) \<and> x = data c
                     \<and> w0 = w\<lparr>clock_reads := Suc (clock_reads w)\<rparr>))"
proof (cases "odoo_attendance_cache s")
  case None
  with assms show ?thesis
    by (simp add: getCachedAttendanceState_run attendance_hit_def isValue_def)
next
  case (Some e)
  show ?thesis
  proof (cases e)
    case (NotJson t)
    with Some assms show ?thesis
      by (simp add: getCachedAttendanceState_run attendance_hit_def isValue_def)
  next
    case (Json c)
    with Some assms show ?thesis
      by (simp add: getCachedAttendanceState_run attendance_hit_def isValue_def
          ATTENDANCE_CACHE_TTL_def)
  qed
qed

text \<open>A cache hit: the second of two calls, or a first call that finds a valid entry.\<close>

lemma getAttendanceStatus_hit:
  assumes "storage w = Some s"
    and "odoo_attendance_cache s = Some (Json c)"
    and "clock E (clock_reads w) - timestamp c < 60000"
    and "data c = Value v"
  shows "getAttendanceStatus E True w = (Inr (Value v), w\<lparr>clock_reads := Suc (clock_reads w)\<rparr>)"
  using assms
  by (simp add: getAttendanceStatus_def getCachedAttendanceState_run ATTENDANCE_CACHE_TTL_def)

text \<open>
  A cache miss that succeeds: one request when the status endpoint answers, two when it
  does not; the entry that the call leaves holds what it returns, with the reading of the
  clock that the call took last as its timestamp.
\<close>

lemma getAttendanceStatus_miss:
  assumes s: "storage w0 = Some s" and session: "odoo_session s = Some (Json session)"
    and run: "andThen getAuthenticatedClient (\<lambda>client.
         try_catch
           (andThen (request (reply_attendance E) client ''/hr_attendance/attendance_user_data''
                       (JObj [])) (\<lambda>result.
            andThen (cacheAttendanceState E result) (\<lambda>_.
            ret result)))
           (\<lambda>error.
              try_catch
                (andThen (callKw (reply_user_data E) client ''hr.employee''
                            ''attendance_user_data'' [] []) (\<lambda>result.
                   andThen (case result of
                              Value u \<Rightarrow>
                                ret \<lparr>attendance_state = Value (ud_attendance_state u),
                                     last_check_in = None, last_check_out = None,
                                     hours_today = ud_hours_today u, employee_name = []\<rparr>
                            | FalseV \<Rightarrow>
                                ret \<lparr>attendance_state = Undefined,
                                     last_check_in = None, last_check_out = None,
                                     hours_today = 0, employee_name = []\<rparr>
                            | _ \<Rightarrow> throw (TypeError ''Cannot read properties of null''))
                     (\<lambda>attendanceState.
                   andThen (cacheAttendanceState E (Value attendanceState)) (\<lambda>_.
                   ret (Value attendanceState)))))
                (\<lambda>_. throw error))) w0 = (Inr v, w1)"
  shows "length (fetches w1) = length (fetches w0) +
           (case outcome ''/hr_attendance/attendance_user_data''
                   (reply_attendance E (length (fetches w0))
                      (buildRequest (sessionClient session)
                         ''/hr_attendance/attendance_user_data'' (JObj []))) of
              Inr r \<Rightarrow> 1 | Inl e \<Rightarrow> 2)
       \<and> (\<exists>s1 c. storage w1 = Some s1
             \<and> odoo_attendance_cache s1 = Some (Json c) \<and> data c = v
             \<and> timestamp c = clock E (clock_reads w1 - 1))"
proof -
  let ?wa = "w0\<lparr>clients := clients w0 @ [sessionClient session]\<rparr>"
  have a: "getAuthenticatedClient w0 = (Inr (length (clients w0)), ?wa)"
    using s session by (rule getAuthenticatedClient_run)
  have sa: "storage ?wa = Some s" using s by simp
  show ?thesis
    using run sa
    apply (simp add: andThen_Inr[where m = getAuthenticatedClient and w = w0, OF a])
    apply (auto simp: try_catch_def andThen_run request_run callKw_run Let_def
        cacheAttendanceState_run split: sum.splits js.splits if_splits)
    done
qed

text \<open>
  C9, as the code has it. Two calls of \<open>getAttendanceStatus\<close> with the cache enabled,
  one after the other, of which the first returns an attendance state. The first call
  sends no request when the cache holds a valid entry, one request when it does not and
  the status endpoint answers, and two (the status endpoint, then the fallback) when the
  status endpoint does not answer. It leaves a cache entry that holds the state it
  returned; when it sent a request, the timestamp of the entry is the reading of the
  clock that it took last. A second call that reads the clock less than 60000 ms after the
  timestamp of that entry returns the same state and changes nothing but the count of
  clock readings: it sends no request.
\<close>

theorem getAttendanceStatus_twice:
  assumes "getAttendanceStatus E True w = (Inr (Value v), w1)"
  shows "length (fetches w1) = length (fetches w) + attendance_requests E w
       \<and> (\<exists>s1 c. storage w1 = Some s1
             \<and> odoo_attendance_cache s1 = Some (Json c) \<and> data c = Value v
             \<and> (\<not> attendance_hit E w \<longrightarrow> timestamp c = clock E (clock_reads w1 - 1))
             \<and> (clock E (clock_reads w1) - timestamp c < 60000 \<longrightarrow>
                  getAttendanceStatus E True w1
                    = (Inr (Value v), w1\<lparr>clock_reads := Suc (clock_reads w1)\<rparr>)))"
proof -
  obtain s where s: "storage w = Some s"
    using assms getCachedAttendanceState_uninitialised[of w E]
    by (cases "storage w") (auto simp: getAttendanceStatus_def andThen_run)
  from attendance_check[OF s, of E]
  obtain x w0 where c: "getCachedAttendanceState E w = (Inr x, w0)"
    and w0: "storage w0 = Some s" "fetches w0 = fetches w"
    and hit: "attendance_hit E w \<longleftrightarrow> isValue x"
    and entry: "attendance_hit E w \<longrightarrow>
                (\<exists>c. odoo_attendance_cache s = Some (Json c) \<and> x = data c
                     \<and> w0 = w\<lparr>clock_reads := Suc (clock_reads w)\<rparr>)"
    by blast
  have "length (fetches w1) = length (fetches w) + attendance_requests E w
       \<and> (\<exists>s1 c. storage w1 = Some s1
             \<and> odoo_attendance_cache s1 = Some (Json c) \<and> data c = Value v
             \<and> (\<not> attendance_hit E w \<longrightarrow> timestamp c = clock E (clock_reads w1 - 1)))"
  proof (cases "attendance_hit E w")
    case True
    with entry obtain c where e: "odoo_attendance_cache s = Some (Json c)"
      and x: "x = data c" and w0': "w0 = w\<lparr>clock_reads := Suc (clock_reads w)\<rparr>"
      by blast
    from True hit obtain y where y: "x = Value y" by (auto simp: isValue_iff)
    from assms c y have "w1 = w0" "v = y"
      by (simp_all add: getAttendanceStatus_def)
    with True s e x y w0' show ?thesis
      by (simp add: attendance_requests_def)
  next
    case False
    with hit have nx: "\<not> isValue x" by simp
    let ?body = "andThen getAuthenticatedClient (\<lambda>client.
         try_catch
           (andThen (request (reply_attendance E) client ''/hr_attendance/attendance_user_data''
                       (JObj [])) (\<lambda>result.
            andThen (cacheAttendanceState E result) (\<lambda>_.
            ret result)))
           (\<lambda>error.
              try_catch
                (andThen (callKw (reply_user_data E) client ''hr.employee''
                            ''attendance_user_data'' [] []) (\<lambda>result.
                   andThen (case result of
                              Value u \<Rightarrow>
                                ret \<lparr>attendance_state = Value (ud_attendance_state u),
                                     last_check_in = None, last_check_out = None,
                                     hours_today = ud_hours_today u, employee_name = []\<rparr>
                            | FalseV \<Rightarrow>
                                ret \<lparr>attendance_state = Undefined,
                                     last_check_in = None, last_check_out = None,
                                     hours_today = 0, employee_name = []\<rparr>
                            | _ \<Rightarrow> throw (TypeError ''Cannot read properties of null''))
                     (\<lambda>attendanceState.
                   andThen (cacheAttendanceState E (Value attendanceState)) (\<lambda>_.
                   ret (Value attendanceState)))))
                (\<lambda>_. throw error)))"
    from assms c nx have run: "?body w0 = (Inr (Value v), w1)"
      by (cases x) (simp_all add: getAttendanceStatus_def isValue_def)
    then obtain cl wa where "getAuthenticatedClient w0 = (Inr cl, wa)"
      by (auto simp: andThen_run split: prod.splits sum.splits)
    then obtain s' session where "storage w0 = Some s'" and "odoo_session s' = Some (Json session)"
      by (rule getAuthenticatedClient_Inr)
    with w0(1) have session: "odoo_session s = Some (Json session)" by simp
    from getAttendanceStatus_miss[OF w0(1) session run] False s session w0(2)
    show ?thesis
      by (auto simp: attendance_requests_def status_reply_def)
  qed
  then obtain s1 c where 1: "length (fetches w1) = length (fetches w) + attendance_requests E w"
    and 2: "storage w1 = Some s1" "odoo_attendance_cache s1 = Some (Json c)"
    and 3: "data c = Value v"
    and 4: "\<not> attendance_hit E w \<longrightarrow> timestamp c = clock E (clock_reads w1 - 1)"
    by blast
  have "getAttendanceStatus E True w1 = (Inr (Value v), w1\<lparr>clock_reads := Suc (clock_reads w1)\<rparr>)"
    if "clock E (clock_reads w1) - timestamp c < 60000"
    using 2 that 3 by (rule getAttendanceStatus_hit)
  with 1 2 3 4 show ?thesis by blast
qed

theorem getAttendanceStatus_twice_witness:
  "fst (getAttendanceStatus env0 True world1) = Inr (Value attendance0)
   \<and> length (fetches (snd (getAttendanceStatus env0 True world1))) = 1
   \<and> getAttendanceStatus env0 True (snd (getAttendanceStatus env0 True world1))
       = (Inr (Value attendance0),
          snd (getAttendanceStatus env0 True world1)
            \<lparr>clock_reads := Suc (clock_reads (snd (getAttendanceStatus env0 True world1)))\<rparr>)"
proof -
  let ?w1 = "snd (getAttendanceStatus env0 True world1)"
  have r: "fst (getAttendanceStatus env0 True world1) = Inr (Value attendance0)"
    by code_simp
  then have run: "getAttendanceStatus env0 True world1 = (Inr (Value attendance0), ?w1)"
    by (simp add: prod_eq_iff)
  have t: "clock env0 (clock_reads ?w1) = 1700000000001" "clock env0 (clock_reads ?w1 - 1) = 1700000000000"
    by code_simp+
  have f: "fetches world1 = []"
    by (simp add: world1_def)
  have n: "attendance_requests env0 world1 = 1" "\<not> attendance_hit env0 world1"
    by code_simp+
  from getAttendanceStatus_twice[OF run]
  obtain s1 c where 1: "length (fetches ?w1) = length (fetches world1) + attendance_requests env0 world1"
    and e: "storage ?w1 = Some s1" "odoo_attendance_cache s1 = Some (Json c)"
    and 2: "\<not> attendance_hit env0 world1 \<longrightarrow> timestamp c = clock env0 (clock_reads ?w1 - 1)"
    and 3: "clock env0 (clock_reads ?w1) - timestamp c < 60000 \<longrightarrow>
              getAttendanceStatus env0 True ?w1
                = (Inr (Value attendance0), ?w1\<lparr>clock_reads := Suc (clock_reads ?w1)\<rparr>)"
    by blast
  from 2 n(2) t(2) have "timestamp c = 1700000000000" by simp
  with 3 t(1) have "getAttendanceStatus env0 True ?w1
                = (Inr (Value attendance0), ?w1\<lparr>clock_reads := Suc (clock_reads ?w1)\<rparr>)"
    by simp
  with r 1 f n(1) show ?thesis by simp
qed

text \<open>
  The claim as it is written fails in three ways. Where the status endpoint is down and
  the fallback answers, the first of two calls one millisecond apart sends two requests.
  Where the status endpoint answers \<^verbatim>\<open>null\<close>, the first call stores and returns \<^verbatim>\<open>null\<close>,
  and the second call, one millisecond later, asks the server again. Where the first call
  is served from an entry that is 59999 ms old, the second call, one millisecond later,
  finds the entry too old and asks the server.
\<close>

theorem getAttendanceStatus_twice_counterexample:
  "apsnd sent (getAttendanceStatus env_status_down True world1)
     = (Inr (Value \<lparr>attendance_state = Value checked_in, last_check_in = None,
                    last_check_out = None, hours_today = 2, employee_name = []\<rparr>), 2)
   \<and> apsnd sent (getAttendanceStatus env_status_null True world1)
     = (Inr Null, 1)
   \<and> apsnd sent
       (getAttendanceStatus env_status_null True (snd (getAttendanceStatus env_status_null True world1)))
     = (Inr Null, 2)
   \<and> apsnd sent (getAttendanceStatus env0 True world3)
     = (Inr (Value attendance0), 0)
   \<and> apsnd sent
       (getAttendanceStatus env0 True (snd (getAttendanceStatus env0 True world3)))
     = (Inr (Value attendance0), 1)
   \<and> clock env0 1 - clock env0 0 < 60000"
proof -
  have "apsnd sent (getAttendanceStatus env_status_down True world1)
     = (Inr (Value \<lparr>attendance_state = Value checked_in, last_check_in = None,
                    last_check_out = None, hours_today = 2, employee_name = []\<rparr>), 2)"
    by code_simp
  moreover have "apsnd sent (getAttendanceStatus env_status_null True world1)
     = (Inr Null, 1)"
    by code_simp
  moreover have "apsnd sent
       (getAttendanceStatus env_status_null True (snd (getAttendanceStatus env_status_null True world1)))
     = (Inr Null, 2)"
    by code_simp
  moreover have "apsnd sent (getAttendanceStatus env0 True world3)
     = (Inr (Value attendance0), 0)"
    by code_simp
  moreover have "apsnd sent
       (getAttendanceStatus env0 True (snd (getAttendanceStatus env0 True world3)))
     = (Inr (Value attendance0), 1)"
    by code_simp
  moreover have "clock env0 1 - clock env0 0 < 60000"
    by code_simp
  ultimately show ?thesis by blast
qed

section \<open>The ISO string of a time value\<close>

lemma dayFromYear_bounds:
  "146097 * (y - 1970) - 506 \<le> 400 * dayFromYear y"
  "400 * dayFromYear y \<le> 146097 * (y - 1970) + 589"
proof -
  define A where "A = (y - 1969) div 4"
  define B where "B = (y - 1901) div 100"
  define C where "C = (y - 1601) div 400"
  have a: "4 * A \<le> y - 1969" "y - 1969 \<le> 4 * A + 3"
    unfolding A_def by simp_all
  have b: "100 * B \<le> y - 1901" "y - 1901 \<le> 100 * B + 99"
    unfolding B_def by simp_all
  have c: "400 * C \<le> y - 1601" "y - 1601 \<le> 400 * C + 399"
    unfolding C_def by simp_all
  have d: "dayFromYear y = 365 * (y - 1970) + A - B + C"
    by (simp add: dayFromYear_def A_def B_def C_def)
  have "100 * (y - 1969) - 300 \<le> 400 * A" using a(2) by simp
  moreover have "400 * B \<le> 4 * (y - 1901)" using b(1) by simp
  moreover have "y - 1601 - 399 \<le> 400 * C" using c(2) by simp
  ultimately show "146097 * (y - 1970) - 506 \<le> 400 * dayFromYear y"
    unfolding d by (simp add: algebra_simps)
  have "400 * A \<le> 100 * (y - 1969)" using a(1) by simp
  moreover have "4 * (y - 1901) - 396 \<le> 400 * B" using b(2) by simp
  moreover have "400 * C \<le> y - 1601" using c(1) by simp
  ultimately show "400 * dayFromYear y \<le> 146097 * (y - 1970) + 589"
    unfolding d by (simp add: algebra_simps)
qed

lemma yearFromDay_correct:
  "dayFromYear (yearFromDay d) \<le> d \<and> d < dayFromYear (yearFromDay d + 1)"
proof -
  define y where "y = 1970 + (400 * d) div 146097"
  define q where "q = (400 * d) div 146097"
  have q: "146097 * q \<le> 400 * d" "400 * d < 146097 * q + 146097"
    unfolding q_def by simp_all
  have y: "y = 1970 + q" by (simp add: y_def q_def)
  have "400 * dayFromYear (y - 1) < 400 * d"
    using dayFromYear_bounds(2)[of "y - 1"] q(1) unfolding y by (simp add: algebra_simps)
  then have lo: "dayFromYear (y - 1) \<le> d" by simp
  have "400 * d < 400 * dayFromYear (y + 2)"
    using dayFromYear_bounds(1)[of "y + 2"] q(2) unfolding y by (simp add: algebra_simps)
  then have hi: "d < dayFromYear (y + 2)" by simp
  have s: "y + 1 + 1 = y + 2" "y - 1 + 1 = y" "2 + y = y + 2" by simp_all
  show ?thesis
    using lo hi by (auto simp: yearFromDay_def y_def [symmetric] Let_def s)
qed

lemma monthFromDay_correct:
  assumes "0 \<le> n" and "n < (if leapYear y then 366 else 365)"
  shows "1 \<le> monthFromDay y n \<and> monthFromDay y n \<le> 12
       \<and> monthStart y (monthFromDay y n) \<le> n
       \<and> n < monthStart y (monthFromDay y n) + daysInMonth y (monthFromDay y n)"
  using assms
  by (auto simp: monthFromDay_def monthStart_def daysInMonth_def split: if_splits)


lemma yearFromDay_range:
  assumes "0 \<le> d" and "d < 2932897"
  shows "1970 \<le> yearFromDay d \<and> yearFromDay d \<le> 9999"
proof -
  have e: "dayFromYear 1970 = 0" "dayFromYear 10000 = 2932897"
    by (simp_all add: dayFromYear_def)
  from yearFromDay_correct[of d]
  have c: "dayFromYear (yearFromDay d) \<le> d" "d < dayFromYear (yearFromDay d + 1)" by simp_all
  have "1970 \<le> yearFromDay d"
  proof (rule ccontr)
    assume "\<not> 1970 \<le> yearFromDay d"
    then have "yearFromDay d + 1 \<le> 1970" by simp
    from dayFromYear_mono[OF this] c(2) assms(1) e show False by simp
  qed
  moreover have "yearFromDay d \<le> 9999"
  proof (rule ccontr)
    assume "\<not> yearFromDay d \<le> 9999"
    then have "10000 \<le> yearFromDay d" by simp
    from dayFromYear_mono[OF this] c(1) assms(2) e show False by simp
  qed
  ultimately show ?thesis by simp
qed

lemma time_of_day:
  fixes r :: int
  assumes "0 \<le> r" and "r < 86400000"
  shows "makeTime (r div 3600000) (r div 60000 mod 60) (r div 1000 mod 60) (r mod 1000) = r"
    and "0 \<le> r div 3600000" and "r div 3600000 \<le> 23"
proof -
  have a: "r div 60000 = r div 1000 div 60" "r div 3600000 = r div 60000 div 60"
    by (simp_all add: div_mult2_eq [symmetric])
  have 1: "r = 1000 * (r div 1000) + r mod 1000" by simp
  have 2: "r div 1000 = 60 * (r div 60000) + r div 1000 mod 60"
    unfolding a by simp
  have 3: "r div 60000 = 60 * (r div 3600000) + r div 60000 mod 60"
    unfolding a by simp
  show "makeTime (r div 3600000) (r div 60000 mod 60) (r div 1000 mod 60) (r mod 1000) = r"
    unfolding makeTime_def using 1 2 3 by linarith
  show "0 \<le> r div 3600000" using assms(1) by (simp add: pos_imp_zdiv_nonneg_iff)
  have "3600000 * (r div 3600000) \<le> r"
    by simp
  with assms(2) show "r div 3600000 \<le> 23" by simp
qed


lemma digitVal_digitChar: "k < 10 \<Longrightarrow> digitVal (digitChar k) = Some (int k)"
proof -
  assume "k < 10"
  then have "k = 0 \<or> k = 1 \<or> k = 2 \<or> k = 3 \<or> k = 4 \<or> k = 5 \<or> k = 6 \<or> k = 7 \<or> k = 8 \<or> k = 9"
    by arith
  then show ?thesis
    by (elim disjE) (simp_all add: digitChar_def digitVal_def)
qed

lemma digitsVal_append:
  "digitsVal acc (xs @ ys) = (case digitsVal acc xs of None \<Rightarrow> None | Some v \<Rightarrow> digitsVal v ys)"
  by (induction xs arbitrary: acc) (simp_all split: option.splits)

lemma digitsVal_showNat:
  "digitsVal acc (showNat n) = Some (acc * 10 ^ length (showNat n) + int n)"
proof (induction n arbitrary: acc rule: showNat.induct)
  case (1 n)
  show ?case
  proof (cases "n < 10")
    case True
    then show ?thesis
      by (subst (1 2) showNat.simps) (simp add: digitVal_digitChar)
  next
    case False
    have m: "n mod 10 < 10" by simp
    have n: "int n = 10 * int (n div 10) + int (n mod 10)"
      by (simp add: zdiv_int zmod_int)
    show ?thesis
      apply (subst (1 2) showNat.simps)
      apply (simp add: False digitsVal_append "1.IH"[OF False] digitVal_digitChar[OF m])
      apply (rule n [symmetric])
      done
  qed
qed

lemma length_showNat: "0 < w \<Longrightarrow> n < 10 ^ w \<Longrightarrow> length (showNat n) \<le> w"
proof (induction n arbitrary: w rule: showNat.induct)
  case (1 n)
  show ?case
  proof (cases "n < 10")
    case True
    with "1.prems" show ?thesis
      by (subst showNat.simps) simp
  next
    case False
    with "1.prems" obtain v where w: "w = Suc v" by (cases w) auto
    with False "1.prems" have v: "0 < v"
      by (cases v) auto
    from "1.prems" w have "n div 10 < 10 ^ v"
      by (simp add: less_mult_imp_div_less mult.commute)
    from "1.IH"[OF False v this] w show ?thesis
      by (subst showNat.simps) (simp add: False)
  qed
qed

lemma digitsVal_zeros: "digitsVal 0 (replicate k (CHR ''0'') @ s) = digitsVal 0 s"
  by (induction k) (simp_all add: digitVal_def)

lemma pad_roundtrip:
  assumes "0 \<le> n" and "n < 10 ^ w" and "0 < w"
  shows "length (pad w n) = w" and "digitsVal 0 (pad w n) = Some n"
proof -
  from assms have "nat n < 10 ^ w"
    by (metis nat_less_iff of_nat_numeral of_nat_power)
  from length_showNat[OF assms(3) this] show "length (pad w n) = w"
    by (simp add: pad_def padStart_def)
  show "digitsVal 0 (pad w n) = Some n"
    using assms(1) by (simp add: pad_def padStart_def digitsVal_zeros digitsVal_showNat)
qed


lemma list2: "length xs = 2 \<Longrightarrow> \<exists>a b. xs = [a, b]"
  by (simp add: eval_nat_numeral length_Suc_conv) blast

lemma list3: "length xs = 3 \<Longrightarrow> \<exists>a b c. xs = [a, b, c]"
  by (simp add: eval_nat_numeral length_Suc_conv) blast

lemma list4: "length xs = 4 \<Longrightarrow> \<exists>a b c d. xs = [a, b, c, d]"
  by (simp add: eval_nat_numeral length_Suc_conv) blast

text \<open>
  The string that \<open>toISOString\<close> gives for a time value of the years 1970 to 9999 is read
  back by \<open>dateParse\<close> as that time value, in every local zone: the start time that
  \<open>startTimer\<close> returns denotes the instant it computed.
\<close>

lemma toISOString_dateParse:
  assumes "0 \<le> t" and "t < 253402300800000"
  shows "\<exists>s. toISOString t = Inr s \<and> dateParse tza s = Some t"
proof -
  define d where "d = t div 86400000"
  define r where "r = t mod 86400000"
  define y where "y = yearFromDay d"
  define n where "n = d - dayFromYear y"
  define m where "m = monthFromDay y n"
  define dd where "dd = n - monthStart y m + 1"
  define h where "h = r div 3600000"
  define mi where "mi = r div 60000 mod 60"
  define se where "se = r div 1000 mod 60"
  define ms where "ms = r mod 1000"
  have t: "t = d * 86400000 + r" by (simp add: d_def r_def)
  have r: "0 \<le> r" "r < 86400000" by (simp_all add: r_def)
  have d0: "0 \<le> d" using assms(1) by (simp add: d_def pos_imp_zdiv_nonneg_iff)
  have "86400000 * d \<le> t" by (simp add: d_def)
  with assms(2) have d1: "d < 2932897" by simp
  from yearFromDay_range[OF d0 d1] have y: "1970 \<le> y" "y \<le> 9999" by (simp_all add: y_def)
  from yearFromDay_correct[of d] dayFromYear_next[of y]
  have n: "0 \<le> n" "n < (if leapYear y then 366 else 365)"
    by (simp_all add: n_def y_def split: if_splits)
  from monthFromDay_correct[OF n]
  have mo: "1 \<le> m" "m \<le> 12" "1 \<le> dd" "dd \<le> daysInMonth y m"
    by (simp_all add: m_def dd_def)
  have dd31: "dd \<le> 31" using mo(4) by (simp add: daysInMonth_def split: if_splits)
  have tm: "makeTime h mi se ms = r"
    unfolding h_def mi_def se_def ms_def by (rule time_of_day(1)[OF r])
  have h: "0 \<le> h" "h \<le> 23"
    unfolding h_def by (rule time_of_day(2)[OF r], rule time_of_day(3)[OF r])
  have f: "0 \<le> mi" "mi \<le> 59" "0 \<le> se" "se \<le> 59" "0 \<le> ms" "ms \<le> 999"
    by (simp_all add: mi_def se_def ms_def)
  have py: "length (pad 4 y) = 4" "digitsVal 0 (pad 4 y) = Some y"
    using y by (simp_all add: pad_roundtrip)
  have pm: "length (pad 2 m) = 2" "digitsVal 0 (pad 2 m) = Some m"
    using mo by (simp_all add: pad_roundtrip)
  have pd: "length (pad 2 dd) = 2" "digitsVal 0 (pad 2 dd) = Some dd"
    using mo dd31 by (simp_all add: pad_roundtrip)
  have ph: "length (pad 2 h) = 2" "digitsVal 0 (pad 2 h) = Some h"
    using h by (simp_all add: pad_roundtrip)
  have pi: "length (pad 2 mi) = 2" "digitsVal 0 (pad 2 mi) = Some mi"
    using f by (simp_all add: pad_roundtrip)
  have ps: "length (pad 2 se) = 2" "digitsVal 0 (pad 2 se) = Some se"
    using f by (simp_all add: pad_roundtrip)
  have pms: "length (pad 3 ms) = 3" "digitsVal 0 (pad 3 ms) = Some ms"
    using f by (simp_all add: pad_roundtrip)
  obtain y1 y2 y3 y4 where Y: "pad 4 y = [y1, y2, y3, y4]" using list4[OF py(1)] by blast
  obtain m1 m2 where M: "pad 2 m = [m1, m2]" using list2[OF pm(1)] by blast
  obtain d1 d2 where D: "pad 2 dd = [d1, d2]" using list2[OF pd(1)] by blast
  obtain h1 h2 where H: "pad 2 h = [h1, h2]" using list2[OF ph(1)] by blast
  obtain i1 i2 where I: "pad 2 mi = [i1, i2]" using list2[OF pi(1)] by blast
  obtain s1 s2 where S: "pad 2 se = [s1, s2]" using list2[OF ps(1)] by blast
  obtain k1 k2 k3 where K: "pad 3 ms = [k1, k2, k3]" using list3[OF pms(1)] by blast
  let ?s = "[y1, y2, y3, y4, CHR ''-'', m1, m2, CHR ''-'', d1, d2, CHR ''T'', h1, h2,
             CHR '':'', i1, i2, CHR '':'', s1, s2, CHR ''.'', k1, k2, k3, CHR ''Z'']"
  have iso: "toISOString t = Inr ?s"
    using assms y
    by (simp add: toISOString_def Let_def showYear_def
        d_def [symmetric] r_def [symmetric] y_def [symmetric] n_def [symmetric]
        m_def [symmetric] dd_def [symmetric] h_def [symmetric] mi_def [symmetric]
        se_def [symmetric] ms_def [symmetric] Y M D H I S K)
  let ?c = "\<lparr>year = y, month = m, day = dd, hour = h, minute = mi, second = se\<rparr>"
  have acc: "engineAccepts ?c ms"
    using mo dd31 h f by (simp add: engineAccepts_def)
  have fields: "dateTimeFields (CHR ''T'') (take 19 ?s) = Some ?c"
    using py(2) pm(2) pd(2) ph(2) pi(2) ps(2)
    unfolding Y M D H I S
    by (simp add: dateTimeFields_def)
  have zone: "zoneSuffix (drop 19 ?s) = Some (ms, True)"
    using pms(2) unfolding K by (simp add: zoneSuffix_def)
  have "makeDay y m dd = d"
    by (simp add: makeDay_def dd_def n_def)
  then have ms: "localMs ?c + ms = t"
    using tm by (simp add: localMs_def makeTime_def t)
  have "dateParse tza ?s = Some t"
    unfolding dateParse_def fields zone using ms acc by simp
  with iso show ?thesis by blast
qed

end
